theory Spec2Isabelle
  imports Main "HOL-Library.Sublist"
begin

section \<open>The development server of \<open>now dev\<close> (\<open>util/dev/server.ts\<close>)\<close>

text \<open>
  The theory embeds the parts of \<open>packages/now-cli/src/util/dev/server.ts\<close> that the
  specification of the development server talks about: the build keys and the build
  scheduler (\<open>triggerBuild\<close>), the batch processing of filesystem events
  (\<open>fileChanged\<close>, \<open>fileRemoved\<close>), the merge of environment files
  (\<open>validateEnvConfig\<close>), the lookup of build assets (\<open>findAsset\<close>), the request
  identifiers (\<open>generateRequestId\<close>) and the request dispatcher
  (\<open>devServerHandler\<close>, \<open>serveProjectAsNowV2\<close>). All definitions come first, the
  lemmas and theorems follow.
\<close>

subsection \<open>JavaScript objects and strings\<close>

text \<open>
  A plain JavaScript object is an association list in the order in which
  \<open>Object.entries\<close> enumerates it. Reading a property takes the entry of that key,
  an assignment keeps the position of an existing key and appends a new one,
  \<open>delete\<close> drops the entry, and the spread \<open>{...a, ...b}\<close> assigns the entries
  of \<open>a\<close> and then those of \<open>b\<close> to an empty object.
\<close>

type_synonym 'v js_object = "(string \<times> 'v) list"

definition obj_get :: "'v js_object \<Rightarrow> string \<Rightarrow> 'v option" where
  "obj_get obj k = map_of obj k"

definition hasOwnProperty :: "'v js_object \<Rightarrow> string \<Rightarrow> bool" where
  "hasOwnProperty obj prop = (map_of obj prop \<noteq> None)"

definition obj_set :: "string \<Rightarrow> 'v \<Rightarrow> 'v js_object \<Rightarrow> 'v js_object" where
  "obj_set k v obj =
     (if map_of obj k \<noteq> None
      then map (\<lambda>(k', v'). if k' = k then (k', v) else (k', v')) obj
      else obj @ [(k, v)])"

text \<open>
  The assignment \<open>obj[k] = v\<close> of an object \<open>v\<close> to a plain object. The name
  \<open>__proto__\<close> is the accessor property of \<open>Object.prototype\<close>: an assignment
  under that name replaces the prototype of \<open>obj\<close> and adds no own property.
\<close>

definition obj_put :: "string \<Rightarrow> 'v \<Rightarrow> 'v js_object \<Rightarrow> 'v js_object" where
  "obj_put k v obj = (if k = ''__proto__'' then obj else obj_set k v obj)"

text \<open>
  A read \<open>obj[k]\<close> of a plain object walks the prototype chain: for a name of which
  the object has no own property it finds the member of \<open>Object.prototype\<close> of that
  name, if there is one. These are the names of the members.
\<close>

definition Object_prototype :: "string list" where
  "Object_prototype =
     [''constructor'', ''__defineGetter__'', ''__defineSetter__'', ''hasOwnProperty'',
      ''__lookupGetter__'', ''__lookupSetter__'', ''isPrototypeOf'', ''propertyIsEnumerable'',
      ''toString'', ''valueOf'', ''__proto__'', ''toLocaleString'']"

definition obj_delete :: "string \<Rightarrow> 'v js_object \<Rightarrow> 'v js_object" where
  "obj_delete k obj = filter (\<lambda>(k', v'). k' \<noteq> k) obj"

definition obj_assign :: "'v js_object \<Rightarrow> 'v js_object \<Rightarrow> 'v js_object" where
  "obj_assign target source = fold (\<lambda>(k, v) acc. obj_set k v acc) source target"

definition spread2 :: "'v js_object \<Rightarrow> 'v js_object \<Rightarrow> 'v js_object" where
  "spread2 a b = obj_assign (obj_assign [] a) b"

text \<open>\<open>String.prototype.startsWith\<close> and \<open>includes\<close>.\<close>

definition startsWith :: "string \<Rightarrow> string \<Rightarrow> bool" where
  "startsWith s t = prefix t s"

fun str_includes :: "string \<Rightarrow> string \<Rightarrow> bool" where
  "str_includes [] t = (t = [])"
| "str_includes (c # cs) t = (prefix t (c # cs) \<or> str_includes cs t)"

text \<open>A thrown JavaScript error, by its message.\<close>

datatype js_error = Error string

subsection \<open>Paths\<close>

text \<open>
  \<open>dirname\<close>, \<open>extname\<close> and \<open>basename\<close> are imported from Node's \<open>path\<close>
  module, which is not part of the repository. They are modelled after the POSIX
  implementation of Node's \<open>lib/path.js\<close>: trailing slashes are skipped, the last
  component is what follows the last remaining slash, and the extension starts at the
  last dot of that component unless the dot is its first character or the component is
  \<open>..\<close>.
\<close>

definition last_component :: "string \<Rightarrow> string" where
  "last_component p =
     rev (takeWhile (\<lambda>c. c \<noteq> CHR ''/'') (dropWhile (\<lambda>c. c = CHR ''/'') (rev p)))"

definition dirname :: "string \<Rightarrow> string" where
  "dirname p =
     (if p = [] then ''.''
      else
        let hasRoot = (hd p = CHR ''/'');
            r = dropWhile (\<lambda>c. c \<noteq> CHR ''/'')
                  (dropWhile (\<lambda>c. c = CHR ''/'') (rev (tl p)))
        in if r = [] then (if hasRoot then ''/'' else ''.'')
           else if hasRoot \<and> length r = 1 then ''//''
           else take (length r) p)"

definition extname :: "string \<Rightarrow> string" where
  "extname p =
     (let comp = last_component p
      in if CHR ''.'' \<notin> set comp then []
         else
           let ext = rev (takeWhile (\<lambda>c. c \<noteq> CHR ''.'') (rev comp));
               pre = take (length comp - length ext - 1) comp
           in if pre = [] \<or> comp = ''..'' then [] else CHR ''.'' # ext)"

definition basename :: "string \<Rightarrow> string \<Rightarrow> string" where
  "basename p ext =
     (let comp = last_component p
      in if ext \<noteq> [] \<and> ext = p then []
         else if ext \<noteq> [] \<and> ext \<noteq> comp \<and> suffix ext comp
         then take (length comp - length ext) comp
         else comp)"

text \<open>
  \<^verbatim>\<open>function dirnameWithoutDot(path) { let dir = dirname(path); if (dir === '.') dir = ''; return dir; }\<close>
  \<^verbatim>\<open>function isIndex(path) { const ext = extname(path); const name = basename(path, ext); return name === 'index'; }\<close>
\<close>

definition dirnameWithoutDot :: "string \<Rightarrow> string" where
  "dirnameWithoutDot path = (let dir = dirname path in if dir = ''.'' then [] else dir)"

definition isIndex :: "string \<Rightarrow> bool" where
  "isIndex path = (let ext = extname path; name = basename path ext in name = ''index'')"

subsection \<open>Build matches, build results and assets\<close>

text \<open>
  The types of \<open>./types\<close> are not part of the sources at hand; the records hold the
  fields that \<open>server.ts\<close> reads and writes. An invocable function receives the payload
  (the source wraps it as \<open>{Action: 'Invoke', body: JSON.stringify(payload)}\<close>) and
  either throws or returns a result. The type \<open>'r\<close> stands for a route rule, which
  only the router inspects.
\<close>

record InvokePayload =
  ip_method :: string
  ip_host :: "string option"
  ip_path :: string
  ip_headers :: "string option js_object"
  ip_encoding :: string
  ip_body :: string

record InvokeResult =
  ir_statusCode :: nat
  ir_headers :: "string js_object"
  ir_body :: "string option"
  ir_encoding :: "string option"

text \<open>
  An asset is a \<open>FileFsRef\<close> with its \<open>fsPath\<close>, a \<open>FileBlob\<close> with its
  \<open>data\<close> and optional \<open>contentType\<close>, a \<open>Lambda\<close> with its optional \<open>fn\<close>, or
  an object with another \<open>type\<close>. What \<open>findAsset\<close> reads from a build output
  can also be a member of \<open>Object.prototype\<close>, by its name: a function such as
  \<open>constructor\<close> or, for \<open>__proto__\<close>, the prototype itself, none of which has a
  \<open>type\<close>.
\<close>

datatype BuilderOutput =
    FileFsRef string
  | FileBlob string "string option"
  | Lambda "(InvokePayload \<Rightarrow> js_error + InvokeResult) option"
  | OtherOutput string
  | PrototypeMember string

record 'r BuildResult =
  br_output :: "BuilderOutput js_object"
  routes :: "'r list option"

text \<open>
  \<open>buildResults\<close> is a \<open>Map\<close> from request path or \<open>null\<close> to build result,
  in insertion order; \<open>builder_shouldServe\<close> is the builder's optional \<open>shouldServe\<close>
  function, as a function of the request path.
\<close>

record 'r BuildMatch =
  src :: string
  use :: string
  builder_shouldServe :: "(string \<Rightarrow> bool) option"
  buildTimestamp :: int
  buildResults :: "(string option \<times> 'r BuildResult) list"
  buildOutput :: "BuilderOutput js_object option"

text \<open>\<open>requestPath.replace(/\/$/, '')\<close>: one trailing slash is removed.\<close>

definition strip_trailing_slash :: "string \<Rightarrow> string" where
  "strip_trailing_slash p = (if p \<noteq> [] \<and> last p = CHR ''/'' then butlast p else p)"

text \<open>
  \<open>match.buildOutput[requestPath]\<close>: the build output is a plain object, and the
  read gives the asset stored under the name or else the member of
  \<open>Object.prototype\<close> of that name. Every such value is an object or a function and
  so counts as true in a condition.
\<close>

definition read_buildOutput :: "BuilderOutput js_object \<Rightarrow> string \<Rightarrow> BuilderOutput option" where
  "read_buildOutput out name =
     (case obj_get out name of
        Some asset \<Rightarrow> Some asset
      | None \<Rightarrow> if name \<in> set Object_prototype then Some (PrototypeMember name) else None)"

text \<open>
  \<^verbatim>\<open>function findAsset(match, requestPath) {
    if (!match.buildOutput) { return; }
    let assetKey = requestPath.replace(/\/$/, '');
    let asset = match.buildOutput[requestPath];
    if (!asset) {
      for (const [name, a] of Object.entries(match.buildOutput)) {
        if (isIndex(name) && dirnameWithoutDot(name) === assetKey) {
          asset = a; assetKey = name; break; } } }
    if (asset) { return { asset, assetKey }; } }\<close>
  Nothing when the match has no \<open>buildOutput\<close>; otherwise what the read at the
  request path gives, under the key with the trailing slash removed; otherwise the
  first own entry of \<open>buildOutput\<close> that is an index of the directory named by that
  key, under its own name.
\<close>

definition findAsset :: "'r BuildMatch \<Rightarrow> string \<Rightarrow> (BuilderOutput \<times> string) option" where
  "findAsset match requestPath =
     (case buildOutput match of
        None \<Rightarrow> None
      | Some out \<Rightarrow>
          (let assetKey = strip_trailing_slash requestPath
           in case read_buildOutput out requestPath of
                Some asset \<Rightarrow> Some (asset, assetKey)
              | None \<Rightarrow>
                  (case find (\<lambda>(name, a). isIndex name \<and> dirnameWithoutDot name = assetKey) out of
                     Some (name, a) \<Rightarrow> Some (a, name)
                   | None \<Rightarrow> None)))"

subsection \<open>Build keys\<close>

text \<open>
  The first statement of \<open>triggerBuild\<close>:
  \<^verbatim>\<open>const buildKey = requestPath === null ? match.src : `${match.src}-${requestPath}`;\<close>
  The request path is \<open>string | null\<close>, with \<open>None\<close> for \<open>null\<close>.
\<close>

definition buildKey :: "'r BuildMatch \<Rightarrow> string option \<Rightarrow> string" where
  "buildKey match requestPath =
     (case requestPath of None \<Rightarrow> src match | Some p \<Rightarrow> src match @ ''-'' @ p)"

subsection \<open>Filesystem events\<close>

text \<open>
  \<^verbatim>\<open>function fileChanged(name, changed, removed) { changed.add(name); removed.delete(name); }\<close>
  \<^verbatim>\<open>function fileRemoved(name, files, changed, removed) {
    delete files[name]; changed.delete(name); removed.add(name); }\<close>
  The two \<open>Set\<close>s and the file index are mutated in place; the model returns them.
\<close>

record FileRef =
  mode :: nat
  ref_fsPath :: string

definition fileChanged ::
  "string \<Rightarrow> string set \<times> string set \<Rightarrow> string set \<times> string set" where
  "fileChanged name cr = (case cr of (changed, removed) \<Rightarrow> (insert name changed, removed - {name}))"

definition fileRemoved ::
  "string \<Rightarrow> FileRef js_object \<times> string set \<times> string set
     \<Rightarrow> FileRef js_object \<times> string set \<times> string set" where
  "fileRemoved name fcr =
     (case fcr of (files, changed, removed) \<Rightarrow>
        (obj_delete name files, changed - {name}, insert name removed))"

text \<open>
  What \<open>FileFsRef.fromFsPath\<close> does when an event is handled: it returns the file
  reference, or throws with code \<open>ENOENT\<close>, or throws another error.
\<close>

datatype fromFsPath_result = Ref FileRef | ThrowsENOENT | Throws js_error

record FSEvent =
  ev_type :: string
  ev_path :: string

text \<open>
  \<open>handleFileCreated\<close> and \<open>handleFileModified\<close> have the same body but for the
  debug messages; \<open>relative\<close> stands for \<open>relative(this.cwd, _)\<close> of
  \<open>../path-helpers\<close>. The file index \<open>this.files\<close> is a plain object, and
  \<open>this.files[name] = ...\<close> is an assignment to it.
\<close>

definition handleFileCreated ::
  "(string \<Rightarrow> string) \<Rightarrow> string \<Rightarrow> fromFsPath_result
     \<Rightarrow> FileRef js_object \<times> string set \<times> string set
     \<Rightarrow> js_error + FileRef js_object \<times> string set \<times> string set" where
  "handleFileCreated relative fsPath stat fcr =
     (case fcr of (files, changed, removed) \<Rightarrow>
        (let name = relative fsPath
         in case stat of
              Ref f \<Rightarrow>
                (case fileChanged name (changed, removed) of
                   (changed', removed') \<Rightarrow> Inr (obj_put name f files, changed', removed'))
            | ThrowsENOENT \<Rightarrow> Inr (fileRemoved name (files, changed, removed))
            | Throws err \<Rightarrow> Inl err))"

definition handleFileModified ::
  "(string \<Rightarrow> string) \<Rightarrow> string \<Rightarrow> fromFsPath_result
     \<Rightarrow> FileRef js_object \<times> string set \<times> string set
     \<Rightarrow> js_error + FileRef js_object \<times> string set \<times> string set" where
  "handleFileModified relative fsPath stat fcr =
     (case fcr of (files, changed, removed) \<Rightarrow>
        (let name = relative fsPath
         in case stat of
              Ref f \<Rightarrow>
                (case fileChanged name (changed, removed) of
                   (changed', removed') \<Rightarrow> Inr (obj_put name f files, changed', removed'))
            | ThrowsENOENT \<Rightarrow> Inr (fileRemoved name (files, changed, removed))
            | Throws err \<Rightarrow> Inl err))"

definition handleFileDeleted ::
  "(string \<Rightarrow> string) \<Rightarrow> string
     \<Rightarrow> FileRef js_object \<times> string set \<times> string set
     \<Rightarrow> FileRef js_object \<times> string set \<times> string set" where
  "handleFileDeleted relative fsPath fcr = fileRemoved (relative fsPath) fcr"

text \<open>
  The loop of \<open>handleFilesystemEvents\<close> over the events of one batch, each paired
  with what \<open>FileFsRef.fromFsPath\<close> does when it is handled. An error other than
  \<open>ENOENT\<close> leaves the loop.
\<close>

fun handleEvent ::
  "(string \<Rightarrow> string) \<Rightarrow> FSEvent \<times> fromFsPath_result
     \<Rightarrow> FileRef js_object \<times> string set \<times> string set
     \<Rightarrow> js_error + FileRef js_object \<times> string set \<times> string set" where
  "handleEvent relative (event, stat) fcr =
     (if ev_type event = ''add'' then handleFileCreated relative (ev_path event) stat fcr
      else if ev_type event = ''unlink'' then Inr (handleFileDeleted relative (ev_path event) fcr)
      else if ev_type event = ''change'' then handleFileModified relative (ev_path event) stat fcr
      else Inr fcr)"

fun updateFiles ::
  "(string \<Rightarrow> string) \<Rightarrow> (FSEvent \<times> fromFsPath_result) list
     \<Rightarrow> FileRef js_object \<times> string set \<times> string set
     \<Rightarrow> js_error + FileRef js_object \<times> string set \<times> string set" where
  "updateFiles relative [] fcr = Inr fcr"
| "updateFiles relative (e # events) fcr =
     (case handleEvent relative e fcr of
        Inl err \<Rightarrow> Inl err
      | Inr fcr' \<Rightarrow> updateFiles relative events fcr')"

text \<open>
  The head of \<open>handleFilesystemEvents\<close>: the two sets start empty, events under a
  \<open>distPath\<close> of a build result are dropped, the others are handled in order.
\<close>

definition outside_distPaths ::
  "string list \<Rightarrow> (FSEvent \<times> fromFsPath_result) list \<Rightarrow> (FSEvent \<times> fromFsPath_result) list" where
  "outside_distPaths distPaths events =
     filter (\<lambda>(event, stat). list_all (\<lambda>distPath. \<not> startsWith (ev_path event) distPath) distPaths)
       events"

definition handleFilesystemEvents ::
  "(string \<Rightarrow> string) \<Rightarrow> string list \<Rightarrow> (FSEvent \<times> fromFsPath_result) list
     \<Rightarrow> FileRef js_object
     \<Rightarrow> js_error + FileRef js_object \<times> string set \<times> string set" where
  "handleFilesystemEvents relative distPaths events files =
     updateFiles relative (outside_distPaths distPaths events) (files, {}, {})"

text \<open>
  The net effect of a batch on one name, in the words of the specification: the last
  event that marks the name decides, \<open>True\<close> for changed and \<open>False\<close> for removed.
\<close>

fun mark_of :: "(string \<Rightarrow> string) \<Rightarrow> FSEvent \<times> fromFsPath_result \<Rightarrow> (string \<times> bool) list" where
  "mark_of relative (event, stat) =
     (if ev_type event = ''unlink'' then [(relative (ev_path event), False)]
      else if ev_type event = ''add'' \<or> ev_type event = ''change'' then
        (case stat of
           Ref f \<Rightarrow> [(relative (ev_path event), True)]
         | ThrowsENOENT \<Rightarrow> [(relative (ev_path event), False)]
         | Throws err \<Rightarrow> [])
      else [])"

definition net_effect ::
  "(string \<Rightarrow> string) \<Rightarrow> (FSEvent \<times> fromFsPath_result) list \<Rightarrow> string \<Rightarrow> bool option" where
  "net_effect relative events name = map_of (rev (concat (map (mark_of relative) events))) name"

subsection \<open>Environment files\<close>

text \<open>
  An \<open>EnvConfig\<close> maps names to \<open>string | undefined\<close>. The test
  \<^verbatim>\<open>/^[a-zA-Z][a-zA-Z0-9_]*$/.test(key)\<close> holds of a key that starts with a letter and
  goes on with letters, digits and underscores.
\<close>

datatype env_value = EnvString string | EnvUndefined

type_synonym EnvConfig = "env_value js_object"

datatype env_error = MissingDotenvVarsError string "string list"

definition is_letter :: "char \<Rightarrow> bool" where
  "is_letter c = (c \<in> set ''abcdefghijklmnopqrstuvwxyzABCDEFGHIJKLMNOPQRSTUVWXYZ'')"

definition is_digit :: "char \<Rightarrow> bool" where
  "is_digit c = (c \<in> set ''0123456789'')"

definition env_name_test :: "string \<Rightarrow> bool" where
  "env_name_test key =
     (case key of
        [] \<Rightarrow> False
      | c # cs \<Rightarrow> is_letter c \<and> list_all (\<lambda>d. is_letter d \<or> is_digit d \<or> d = CHR ''_'') cs)"

definition is_reference :: "env_value \<Rightarrow> bool" where
  "is_reference v = (case v of EnvString s \<Rightarrow> startsWith s ''@'' | EnvUndefined \<Rightarrow> False)"

text \<open>
  \<open>validateEnvConfig\<close>: the names of \<open>env\<close> whose value is a string starting with
  \<open>@\<close> and that \<open>localEnv\<close> does not define are missing, and a missing name
  throws. Otherwise the two objects are spread into one and every key failing the
  test is deleted (the warnings are not modelled).
\<close>

definition missing_names :: "EnvConfig \<Rightarrow> EnvConfig \<Rightarrow> string list" where
  "missing_names env localEnv =
     map fst (filter (\<lambda>(name, v). is_reference v \<and> \<not> hasOwnProperty localEnv name) env)"

definition validateEnvConfig :: "string \<Rightarrow> EnvConfig \<Rightarrow> EnvConfig \<Rightarrow> env_error + EnvConfig" where
  "validateEnvConfig type env localEnv =
     (let missing = missing_names env localEnv
      in if length missing > 0 then Inl (MissingDotenvVarsError type missing)
         else
           let merged = spread2 env localEnv
           in Inr (fold (\<lambda>key m. if \<not> env_name_test key then obj_delete key m else m)
                     (map fst merged) merged))"

subsection \<open>The build scheduler\<close>

text \<open>
  \<open>triggerBuild\<close> is an \<open>async\<close> method: it runs up to an \<open>await\<close>, other
  code of the server runs, and it is resumed later. Its activations are therefore records
  that say where the activation waits, and the scheduler is a transition system whose
  steps are the pieces of \<open>triggerBuild\<close> between two \<open>await\<close>s:
  \<^verbatim>\<open>
  const buildKey = requestPath === null ? match.src : `${match.src}-${requestPath}`;
  let buildPromise = this.inProgressBuilds.get(buildKey);
  if (buildPromise) {
    // just wait on the existing one
  } else if (Date.now() - match.buildTimestamp < ms('2s')) {
    // skip
  } else {
    const nowConfig = await this.getNowConfig();
    if (previousBuildResult) {
      for (const [name] of Object.entries(previousBuildResult.output)) {
        delete match.buildOutput[name];
      }
    }
    buildPromise = executeBuild(nowConfig, this, this.files, match, requestPath, false, ...);
    this.inProgressBuilds.set(buildKey, buildPromise);
  }
  try { await buildPromise; } finally { this.inProgressBuilds.delete(buildKey); }
  \<close>
  A promise returned by \<open>executeBuild\<close> is the index of its call in \<open>builds\<close>; a
  match object is a reference into the store \<open>matches\<close>; \<open>inProgressBuilds\<close> is the
  \<open>Map\<close> from build key to promise.
\<close>

datatype promise_state = Pending | Resolved | Rejected

record build_call =
  bc_key :: string
  bc_match :: nat
  bc_requestPath :: "string option"
  bc_promise :: promise_state

datatype await_point = AwaitNowConfig | AwaitBuild "nat option" | Returned | Thrown

record 'r trigger_call =
  tc_match :: nat
  tc_requestPath :: "string option"
  tc_previous :: "'r BuildResult option"
  tc_buildKey :: string
  tc_at :: await_point

record 'r scheduler =
  inProgressBuilds :: "nat js_object"
  matches :: "nat \<Rightarrow> 'r BuildMatch"
  builds :: "build_call list"
  calls :: "'r trigger_call list"

definition init_scheduler :: "(nat \<Rightarrow> 'r BuildMatch) \<Rightarrow> 'r scheduler" where
  "init_scheduler ms = \<lparr>inProgressBuilds = [], matches = ms, builds = [], calls = []\<rparr>"

text \<open>
  The entry of \<open>triggerBuild\<close> for the match \<open>m\<close> at the time \<open>now\<close>
  (\<open>Date.now()\<close>, in milliseconds; \<open>ms('2s')\<close> is 2000): up to the first
  \<open>await\<close>. With a promise in the map the call waits for it; within the two seconds it
  waits for \<open>undefined\<close>; otherwise it waits for \<open>getNowConfig\<close>.
\<close>

definition triggerBuild_enter ::
  "nat \<Rightarrow> string option \<Rightarrow> 'r BuildResult option \<Rightarrow> int \<Rightarrow> 'r scheduler \<Rightarrow> 'r scheduler" where
  "triggerBuild_enter m requestPath previousBuildResult now s =
     (let match = matches s m;
          key = buildKey match requestPath;
          at = (case obj_get (inProgressBuilds s) key of
                  Some buildPromise \<Rightarrow> AwaitBuild (Some buildPromise)
                | None \<Rightarrow>
                    if now - buildTimestamp match < 2000 then AwaitBuild None
                    else AwaitNowConfig)
      in s\<lparr>calls := calls s @
                [\<lparr>tc_match = m, tc_requestPath = requestPath,
                  tc_previous = previousBuildResult, tc_buildKey = key, tc_at = at\<rparr>]\<rparr>)"

text \<open>
  The tear-down of the previous outputs. Deleting from a \<open>buildOutput\<close> that is
  \<open>undefined\<close> throws a \<open>TypeError\<close>, which is \<open>None\<close> here.
\<close>

definition teardown :: "'r BuildResult option \<Rightarrow> 'r BuildMatch \<Rightarrow> 'r BuildMatch option" where
  "teardown previousBuildResult match =
     (case previousBuildResult of
        None \<Rightarrow> Some match
      | Some prev \<Rightarrow>
          (case buildOutput match of
             Some out \<Rightarrow>
               Some (match\<lparr>buildOutput :=
                       Some (fold (\<lambda>(name, a) acc. obj_delete name acc) (br_output prev) out)\<rparr>)
           | None \<Rightarrow> if br_output prev = [] then Some match else None))"

text \<open>
  The call \<open>i\<close> is resumed after \<open>await this.getNowConfig()\<close>: it tears the
  previous outputs down, calls \<open>executeBuild\<close> and registers the promise under its key.
\<close>

definition triggerBuild_build :: "nat \<Rightarrow> 'r scheduler \<Rightarrow> 'r scheduler" where
  "triggerBuild_build i s =
     (if i < length (calls s) \<and> tc_at (calls s ! i) = AwaitNowConfig then
        (let c = calls s ! i
         in case teardown (tc_previous c) (matches s (tc_match c)) of
              None \<Rightarrow> s\<lparr>calls := (calls s)[i := c\<lparr>tc_at := Thrown\<rparr>]\<rparr>
            | Some match \<Rightarrow>
                (let buildPromise = length (builds s)
                 in s\<lparr>matches := (matches s)(tc_match c := match),
                      builds := builds s @
                        [\<lparr>bc_key = tc_buildKey c, bc_match = tc_match c,
                          bc_requestPath = tc_requestPath c, bc_promise = Pending\<rparr>],
                      inProgressBuilds := obj_set (tc_buildKey c) buildPromise (inProgressBuilds s),
                      calls := (calls s)[i := c\<lparr>tc_at := AwaitBuild (Some buildPromise)\<rparr>]\<rparr>))
      else s)"

text \<open>
  Modelled from the spec: \<open>executeBuild\<close> of \<open>./builder\<close> is not among the sources.
  The specification says that a build publishes its outputs and sets \<open>buildTimestamp\<close>
  after that, and that a build that throws leaves the match in place. The promise
  \<open>p\<close> settles; a build that succeeds has set \<open>buildTimestamp\<close> to \<open>stamp\<close>.
  The outputs are not part of this model.
\<close>

definition executeBuild_settles :: "nat \<Rightarrow> bool \<Rightarrow> int \<Rightarrow> 'r scheduler \<Rightarrow> 'r scheduler" where
  "executeBuild_settles p ok stamp s =
     (if p < length (builds s) \<and> bc_promise (builds s ! p) = Pending then
        (let b = builds s ! p
         in s\<lparr>builds := (builds s)[p := b\<lparr>bc_promise := (if ok then Resolved else Rejected)\<rparr>],
              matches := (if ok
                          then (matches s)(bc_match b := (matches s (bc_match b))\<lparr>buildTimestamp := stamp\<rparr>)
                          else matches s)\<rparr>)
      else s)"

text \<open>
  The call \<open>i\<close> is resumed after \<open>await buildPromise\<close>, which needs the promise
  to be settled (awaiting \<open>undefined\<close> needs nothing): the \<open>finally\<close> block deletes
  the key from the map, and the call returns, or throws what the build threw.
\<close>

definition settled :: "'r scheduler \<Rightarrow> nat option \<Rightarrow> bool" where
  "settled s buildPromise =
     (case buildPromise of
        None \<Rightarrow> True
      | Some p \<Rightarrow> p < length (builds s) \<and> bc_promise (builds s ! p) \<noteq> Pending)"

definition triggerBuild_finally :: "nat \<Rightarrow> 'r scheduler \<Rightarrow> 'r scheduler" where
  "triggerBuild_finally i s =
     (if i < length (calls s) then
        (let c = calls s ! i
         in case tc_at c of
              AwaitBuild buildPromise \<Rightarrow>
                if settled s buildPromise then
                  s\<lparr>inProgressBuilds := obj_delete (tc_buildKey c) (inProgressBuilds s),
                    calls := (calls s)[i := c\<lparr>tc_at :=
                       (case buildPromise of
                          None \<Rightarrow> Returned
                        | Some p \<Rightarrow> if bc_promise (builds s ! p) = Rejected then Thrown else Returned)\<rparr>]\<rparr>
                else s
            | _ \<Rightarrow> s)
      else s)"

text \<open>
  What happens at the server, one step at a time: \<open>triggerBuild\<close> is called, the
  configuration arrives for a call, a build settles, a call is resumed after the build.
\<close>

datatype 'r scheduler_event =
    Trigger nat "string option" "'r BuildResult option" int
  | NowConfigResolves nat
  | BuildSettles nat bool int
  | BuildAwaited nat

fun scheduler_step :: "'r scheduler_event \<Rightarrow> 'r scheduler \<Rightarrow> 'r scheduler" where
  "scheduler_step (Trigger m requestPath previousBuildResult now) s =
     triggerBuild_enter m requestPath previousBuildResult now s"
| "scheduler_step (NowConfigResolves i) s = triggerBuild_build i s"
| "scheduler_step (BuildSettles p ok stamp) s = executeBuild_settles p ok stamp s"
| "scheduler_step (BuildAwaited i) s = triggerBuild_finally i s"

definition run_scheduler :: "'r scheduler_event list \<Rightarrow> 'r scheduler \<Rightarrow> 'r scheduler" where
  "run_scheduler events s = fold scheduler_step events s"

text \<open>The builds of a key that are in progress: started and not settled.\<close>

definition builds_in_progress :: "string \<Rightarrow> 'r scheduler \<Rightarrow> build_call list" where
  "builds_in_progress key s =
     filter (\<lambda>b. bc_key b = key \<and> bc_promise b = Pending) (builds s)"

subsection \<open>Request identifiers\<close>

text \<open>
  \<^verbatim>\<open>function generateRequestId(podId) {
    return `dev1:${[podId, Date.now(), randomBytes(6).toString('hex')].join('-')}`; }\<close>
  \<open>Date.now()\<close> is an integer number of milliseconds, which \<open>join\<close> prints in
  decimal; \<open>randomBytes(6)\<close> is a buffer of octets, printed with two lower-case
  hexadecimal digits each.
\<close>

definition digit_char :: "nat \<Rightarrow> char" where
  "digit_char n = ''0123456789abcdef'' ! n"

function show_nat :: "nat \<Rightarrow> string" where
  "show_nat n = (if n < 10 then [digit_char n] else show_nat (n div 10) @ [digit_char (n mod 10)])"
  by pat_completeness auto
termination
  by (relation "measure (\<lambda>n. n)") auto

declare show_nat.simps [simp del]

definition number_toString :: "int \<Rightarrow> string" where
  "number_toString n = (if n < 0 then CHR ''-'' # show_nat (nat (- n)) else show_nat (nat n))"

definition hex_byte :: "nat \<Rightarrow> string" where
  "hex_byte b = [digit_char (b div 16 mod 16), digit_char (b mod 16)]"

definition toString_hex :: "nat list \<Rightarrow> string" where
  "toString_hex bytes = concat (map hex_byte bytes)"

fun join :: "string \<Rightarrow> string list \<Rightarrow> string" where
  "join sep [] = []"
| "join sep [x] = x"
| "join sep (x # y # ys) = x @ sep @ join sep (y # ys)"

definition generateRequestId :: "string \<Rightarrow> int \<Rightarrow> nat list \<Rightarrow> string" where
  "generateRequestId podId now randomBytes6 =
     ''dev1:'' @ join ''-'' [podId, number_toString now, toString_hex randomBytes6]"

text \<open>
  The constructor: \<^verbatim>\<open>this.podId = Math.random().toString(32).slice(-5);\<close>
  The argument is the string that \<open>Math.random().toString(32)\<close> gives; \<open>slice(-5)\<close>
  keeps its last five characters, or all of it when it is shorter.
\<close>

definition podId_of :: "string \<Rightarrow> string" where
  "podId_of random32 = drop (length random32 - 5) random32"

text \<open>The digits that \<open>toString(32)\<close> prints.\<close>

definition is_base32 :: "char \<Rightarrow> bool" where
  "is_base32 c = (c \<in> set ''0123456789abcdefghijklmnopqrstuv'')"

text \<open>
  The pattern \<open>dev1:[a-z0-9]{5}-\d+-[0-9a-f]{12}\<close> of the specification, in its
  words, and a function that decides it by reading the string from the left.
\<close>

definition is_lower_alnum :: "char \<Rightarrow> bool" where
  "is_lower_alnum c = (c \<in> set ''abcdefghijklmnopqrstuvwxyz0123456789'')"

definition is_hex :: "char \<Rightarrow> bool" where
  "is_hex c = (c \<in> set ''0123456789abcdef'')"

definition request_id_pattern :: "string \<Rightarrow> bool" where
  "request_id_pattern s =
     (\<exists>pod ms hex. s = ''dev1:'' @ pod @ ''-'' @ ms @ ''-'' @ hex \<and>
        length pod = 5 \<and> list_all is_lower_alnum pod \<and>
        ms \<noteq> [] \<and> list_all is_digit ms \<and>
        length hex = 12 \<and> list_all is_hex hex)"

definition matches_request_id :: "string \<Rightarrow> bool" where
  "matches_request_id s =
     (prefix ''dev1:'' s \<and>
      (let pod = take 5 (drop 5 s); r = drop 10 s
       in length pod = 5 \<and> list_all is_lower_alnum pod \<and>
          (case r of
             [] \<Rightarrow> False
           | c # r' \<Rightarrow>
               c = CHR ''-'' \<and>
               (let ms = takeWhile is_digit r'; r'' = dropWhile is_digit r'
                in ms \<noteq> [] \<and>
                   (case r'' of
                      [] \<Rightarrow> False
                    | d # hex \<Rightarrow> d = CHR ''-'' \<and> length hex = 12 \<and> list_all is_hex hex)))))"

subsection \<open>Requests and responses\<close>

text \<open>
  Of a request the server reads the method, the URL and the headers (Node delivers the
  header names in lower case). A response has a status code, headers, which
  \<open>setHeader\<close> stores under the lower-case name, and a body once it is ended or
  handed to \<open>serve-handler\<close>; \<open>Proxied\<close> is a body that \<open>http-proxy\<close> has
  relayed from the upstream at a URL.
\<close>

record IncomingMessage =
  req_method :: "string option"
  req_url :: "string option"
  req_headers :: "string js_object"

datatype accept_kind = Json | Html | Plain

datatype res_body =
    ErrorBody accept_kind nat "string option"
  | RedirectBody accept_kind string nat
  | Raw string
  | Invoked InvokeResult
  | Directory string
  | Static string string
  | Proxied string

record ServerResponse =
  res_statusCode :: nat
  res_headers :: "string js_object"
  res_body :: "res_body option"

definition toLowerCase :: "string \<Rightarrow> string" where
  "toLowerCase s =
     map (\<lambda>c. case map_of (zip ''ABCDEFGHIJKLMNOPQRSTUVWXYZ'' ''abcdefghijklmnopqrstuvwxyz'') c of
                 Some d \<Rightarrow> d
               | None \<Rightarrow> c) s"

definition setHeader :: "string \<Rightarrow> string \<Rightarrow> ServerResponse \<Rightarrow> ServerResponse" where
  "setHeader name v res = res\<lparr>res_headers := obj_set (toLowerCase name) v (res_headers res)\<rparr>"

definition getHeader :: "string \<Rightarrow> ServerResponse \<Rightarrow> string option" where
  "getHeader name res = obj_get (res_headers res) (toLowerCase name)"

definition end_response :: "res_body \<Rightarrow> ServerResponse \<Rightarrow> ServerResponse" where
  "end_response b res = res\<lparr>res_body := Some b\<rparr>"

text \<open>
  \<^verbatim>\<open>setResponseHeaders(res, nowRequestId, headers = {}) {
    const allHeaders = { 'cache-control': 'public, max-age=0, must-revalidate', ...headers,
      server: 'now', 'x-now-trace': 'dev1', 'x-now-id': nowRequestId, 'x-now-cache': 'MISS' };
    for (const [name, value] of Object.entries(allHeaders)) { res.setHeader(name, value); } }\<close>
\<close>

definition allHeaders :: "string \<Rightarrow> string js_object \<Rightarrow> string js_object" where
  "allHeaders nowRequestId headers =
     obj_assign
       (obj_assign [(''cache-control'', ''public, max-age=0, must-revalidate'')] headers)
       [(''server'', ''now''), (''x-now-trace'', ''dev1''),
        (''x-now-id'', nowRequestId), (''x-now-cache'', ''MISS'')]"

definition setResponseHeaders ::
  "string \<Rightarrow> string js_object \<Rightarrow> ServerResponse \<Rightarrow> ServerResponse" where
  "setResponseHeaders nowRequestId headers res =
     fold (\<lambda>(name, v) r. setHeader name v r) (allHeaders nowRequestId headers) res"

text \<open>
  \<open>res.setHeader\<close> of Node throws when the name is no HTTP token or the value has a
  character that a header cannot have. The names and values that the server sets of
  its own are accepted. The headers of a route and those of a function's result come
  from outside: \<open>setHeaders\<close> sets the entries of such an object in order, as the
  loops over \<open>Object.entries\<close> do, and stops at the first entry for which
  \<open>res.setHeader\<close> throws, with the headers that are set by then; \<open>throws\<close> gives
  the error for a name and a value, if there is one.
\<close>

fun setHeaders ::
  "(string \<Rightarrow> string \<Rightarrow> js_error option) \<Rightarrow> string js_object \<Rightarrow> ServerResponse
     \<Rightarrow> (js_error \<times> ServerResponse) + ServerResponse" where
  "setHeaders throws [] res = Inr res"
| "setHeaders throws ((name, v) # headers) res =
     (case throws name v of
        Some err \<Rightarrow> Inl (err, res)
      | None \<Rightarrow> setHeaders throws headers (setHeader name v res))"

text \<open>
  The content negotiation of \<open>sendError\<close> and \<open>sendRedirect\<close>:
  \<^verbatim>\<open>const { accept = 'text/plain' } = req.headers;\<close>, then \<open>accept.includes('json')\<close>
  and \<open>accept.includes('html')\<close>. The texts of the bodies come from templates that are
  not modelled; a body records what it is made from.
\<close>

definition negotiate :: "IncomingMessage \<Rightarrow> accept_kind" where
  "negotiate req =
     (let accept = (case obj_get (req_headers req) ''accept'' of None \<Rightarrow> ''text/plain'' | Some a \<Rightarrow> a)
      in if str_includes accept ''json'' then Json
         else if str_includes accept ''html'' then Html
         else Plain)"

definition sendError ::
  "IncomingMessage \<Rightarrow> string \<Rightarrow> string option \<Rightarrow> nat \<Rightarrow> ServerResponse \<Rightarrow> ServerResponse" where
  "sendError req nowRequestId errorCode statusCode res =
     (let res1 = setResponseHeaders nowRequestId [] (res\<lparr>res_statusCode := statusCode\<rparr>);
          kind = negotiate req;
          res2 = setHeader ''content-type''
                   (case kind of
                      Json \<Rightarrow> ''application/json''
                    | Html \<Rightarrow> ''text/html; charset=utf-8''
                    | Plain \<Rightarrow> ''text/plain; charset=utf-8'') res1
      in end_response (ErrorBody kind statusCode errorCode) res2)"

definition send404 :: "IncomingMessage \<Rightarrow> string \<Rightarrow> ServerResponse \<Rightarrow> ServerResponse" where
  "send404 req nowRequestId res = sendError req nowRequestId (Some ''FILE_NOT_FOUND'') 404 res"

definition sendRedirect ::
  "IncomingMessage \<Rightarrow> string \<Rightarrow> string \<Rightarrow> nat \<Rightarrow> ServerResponse \<Rightarrow> ServerResponse" where
  "sendRedirect req nowRequestId location statusCode res =
     (let res1 = setResponseHeaders nowRequestId [(''location'', location)]
                   (res\<lparr>res_statusCode := statusCode\<rparr>);
          kind = negotiate req;
          res2 = setHeader ''content-type''
                   (case kind of
                      Json \<Rightarrow> ''application/json''
                    | Html \<Rightarrow> ''text/html''
                    | Plain \<Rightarrow> ''text/plain'') res1
      in end_response (RedirectBody kind location statusCode) res2)"

text \<open>
  \<^verbatim>\<open>shouldRebuild(req) {
    return req.headers.pragma === 'no-cache' || req.headers['cache-control'] === 'no-cache'; }\<close>
\<close>

definition shouldRebuild :: "IncomingMessage \<Rightarrow> bool" where
  "shouldRebuild req =
     (obj_get (req_headers req) ''pragma'' = Some ''no-cache'' \<or>
      obj_get (req_headers req) ''cache-control'' = Some ''no-cache'')"

subsection \<open>The request dispatcher\<close>

text \<open>
  What the dispatcher calls and the sources at hand do not contain is a parameter:
  \<^item> \<open>url_parse\<close>: the \<open>pathname\<close> and the \<open>search\<close> that Node's \<open>url.parse\<close>
    gives for a URL;
  \<^item> \<open>devRouter\<close> (\<open>./router\<close>), called with the URL, the method, the routes and the
    \<open>hasFilesystem\<close> capability of the server;
  \<^item> \<open>isURL\<close> (\<open>./is-url\<close>) and \<open>getMimeType\<close> (\<open>./mime-type\<close>);
  \<^item> \<open>mixQuery\<close>: the URL made by \<open>url.parse\<close>, \<open>Object.assign(query, uri_args)\<close>
    and \<open>url.format\<close> from a URL, an optional new path name and the \<open>uri_args\<close>;
  \<^item> \<open>refreshBuildMatches\<close>: the build matches after \<open>updateBuildMatches\<close> and the
    blocking builds, which depend on \<open>getBuildMatches\<close> and the builders;
  \<^item> \<open>awaitTriggerBuild\<close>: what awaiting \<open>triggerBuild\<close> for a match and a request
    path ends in, the error of a failed build or the match with its new outputs;
  \<^item> \<open>directoryHtml\<close>: the page of \<open>renderDirectoryListing\<close> for a request path,
    if the listing has entries;
  \<^item> \<open>rawBody\<close>: the body of the request, or the error of reading it, and
    \<open>base64\<close>, the encoding \<open>Buffer.toString('base64')\<close>;
  \<^item> \<open>remoteAddress\<close>: \<open>req.connection.remoteAddress\<close>;
  \<^item> \<open>setHeader_error\<close>: the error with which \<open>res.setHeader\<close> of Node throws
    for a name and a value, if it does;
  \<^item> \<open>proxy_web\<close>: what \<open>proxy.web(req, res)\<close> of the library \<open>http-proxy\<close>
    makes of the response that it is handed for a target URL: the response as the
    proxy leaves it, having relayed what the upstream answered, or the \<open>error\<close>
    event with the \<open>code\<close> of the error and the response as it is then.
\<close>

datatype proxy_outcome =
    Relayed ServerResponse
  | ProxyError "string option" ServerResponse

record RouteResult =
  rr_found :: bool
  rr_dest :: string
  rr_status :: "nat option"
  rr_headers :: "string js_object"
  rr_uri_args :: "string js_object"

record 'r dev_env =
  url_parse :: "string \<Rightarrow> string option \<times> string option"
  devRouter :: "string option \<Rightarrow> string option \<Rightarrow> 'r list option \<Rightarrow> (string \<Rightarrow> bool) \<Rightarrow> RouteResult"
  isURL :: "string \<Rightarrow> bool"
  getMimeType :: "string \<Rightarrow> string"
  mixQuery :: "string \<Rightarrow> string option \<Rightarrow> string js_object \<Rightarrow> string"
  refreshBuildMatches :: "'r BuildMatch list \<Rightarrow> 'r BuildMatch list"
  awaitTriggerBuild :: "'r BuildMatch \<Rightarrow> string option \<Rightarrow> js_error + 'r BuildMatch"
  directoryHtml :: "'r BuildMatch list \<Rightarrow> string \<Rightarrow> string option"
  rawBody :: "IncomingMessage \<Rightarrow> js_error + string"
  base64 :: "string \<Rightarrow> string"
  remoteAddress :: "IncomingMessage \<Rightarrow> string option"
  setHeader_error :: "string \<Rightarrow> string \<Rightarrow> js_error option"
  proxy_web :: "IncomingMessage \<Rightarrow> ServerResponse \<Rightarrow> string \<Rightarrow> proxy_outcome"

text \<open>
  A connection: the request and the response, which the dispatcher mutates, the build
  matches of the server (the values of the \<open>Map\<close>, in its order), the calls of
  \<open>triggerBuild\<close> made for the request, with the \<open>src\<close> of the match and the
  request path, and the calls of \<open>proxyPass\<close> made for it, with the response as it
  is handed over and the target URL.
\<close>

record 'r conn =
  req :: IncomingMessage
  res :: ServerResponse
  buildMatches :: "'r BuildMatch list"
  triggered :: "(string \<times> string option) list"
  proxied :: "(ServerResponse \<times> string) list"

text \<open>\<open>dest.replace(/^\//, '')\<close>, and the truth of an optional status in a condition.\<close>

definition strip_leading_slash :: "string \<Rightarrow> string" where
  "strip_leading_slash dest = (case dest of [] \<Rightarrow> [] | c # cs \<Rightarrow> if c = CHR ''/'' then cs else dest)"

definition truthy :: "nat option \<Rightarrow> bool" where
  "truthy status = (case status of None \<Rightarrow> False | Some n \<Rightarrow> n \<noteq> 0)"

text \<open>
  \<open>findMatchingRoute\<close>, \<open>shouldServe\<close>, \<open>findBuildMatch\<close> and \<open>hasFilesystem\<close>.
  A builder with a \<open>shouldServe\<close> function decides by it; without one, the match
  serves a path for which it has an asset or, outside the filesystem check, a matching
  route of one of its build results. \<open>hasFilesystem\<close> is the capability that the
  router gets with the server: it calls \<open>findBuildMatch\<close> with \<open>isFilesystem = true\<close>,
  where \<open>shouldServe\<close> does not ask the router, which is \<open>servesFilesystem\<close>.
\<close>

definition servesFilesystem :: "'r BuildMatch \<Rightarrow> string \<Rightarrow> bool" where
  "servesFilesystem match requestPath =
     (case builder_shouldServe match of
        Some f \<Rightarrow> f requestPath
      | None \<Rightarrow> findAsset match requestPath \<noteq> None)"

definition hasFilesystem :: "'r BuildMatch list \<Rightarrow> string \<Rightarrow> bool" where
  "hasFilesystem ms dest =
     (find (\<lambda>match. servesFilesystem match (strip_leading_slash dest)) ms \<noteq> None)"

definition findMatchingRoute ::
  "'r dev_env \<Rightarrow> 'r BuildMatch list \<Rightarrow> 'r BuildMatch \<Rightarrow> string \<Rightarrow> RouteResult option" where
  "findMatchingRoute env ms match requestPath =
     find rr_found
       (map (\<lambda>buildResult. devRouter env (Some (''/'' @ requestPath)) None (routes buildResult)
                              (hasFilesystem ms))
          (filter (\<lambda>buildResult. routes buildResult \<noteq> None) (map snd (buildResults match))))"

definition shouldServe ::
  "'r dev_env \<Rightarrow> 'r BuildMatch list \<Rightarrow> 'r BuildMatch \<Rightarrow> string \<Rightarrow> bool \<Rightarrow> bool" where
  "shouldServe env ms match requestPath isFilesystem =
     (case builder_shouldServe match of
        Some f \<Rightarrow> f requestPath
      | None \<Rightarrow>
          if findAsset match requestPath \<noteq> None then True
          else if \<not> isFilesystem \<and> findMatchingRoute env ms match requestPath \<noteq> None then True
          else False)"

definition findBuildMatch ::
  "'r dev_env \<Rightarrow> 'r BuildMatch list \<Rightarrow> string \<Rightarrow> bool \<Rightarrow> 'r BuildMatch option" where
  "findBuildMatch env ms requestPath isFilesystem =
     find (\<lambda>match. shouldServe env ms match requestPath isFilesystem) ms"

text \<open>
  The head of \<open>serveProjectAsNowV2\<close>:
  \<^verbatim>\<open>
  const parsed = url.parse(req.url || '/');
  if (typeof parsed.pathname === 'string' && parsed.pathname.includes('//')) {
    let location = parsed.pathname.replace(/\/+/g, '/');
    if (parsed.search) { location += parsed.search; }
    if (req.method === 'GET') {
      await this.sendRedirect(req, res, nowRequestId, location, 301);
      return;
    }
    req.url = location;
  }\<close>
  \<open>collapse_slashes\<close> is \<open>replace(/\/+/g, '/')\<close>: every maximal run of slashes
  becomes one slash. \<open>cleanUrl\<close> is the \<open>location\<close>, when the path name has a
  double slash. \<open>normalize_url\<close> answers with the redirect (\<open>Inl\<close>) or goes on with the
  request, rewritten or as it is (\<open>Inr\<close>).
\<close>

function collapse_slashes :: "string \<Rightarrow> string" where
  "collapse_slashes [] = []"
| "collapse_slashes (c # cs) =
     (if c = CHR ''/'' then CHR ''/'' # collapse_slashes (dropWhile (\<lambda>d. d = CHR ''/'') cs)
      else c # collapse_slashes cs)"
  by pat_completeness auto
termination
  by (relation "measure length") (auto simp: length_dropWhile_le less_Suc_eq_le)

definition url_or_slash :: "IncomingMessage \<Rightarrow> string" where
  "url_or_slash rq = (case req_url rq of None \<Rightarrow> ''/'' | Some u \<Rightarrow> if u = [] then ''/'' else u)"

definition cleanUrl :: "'r dev_env \<Rightarrow> IncomingMessage \<Rightarrow> string option" where
  "cleanUrl env rq =
     (case url_parse env (url_or_slash rq) of
        (pathname, search) \<Rightarrow>
          (case pathname of
             None \<Rightarrow> None
           | Some p \<Rightarrow>
               if str_includes p ''//''
               then Some (collapse_slashes p @ (case search of None \<Rightarrow> [] | Some q \<Rightarrow> q))
               else None))"

definition normalize_url :: "'r dev_env \<Rightarrow> string \<Rightarrow> 'r conn \<Rightarrow> 'r conn + 'r conn" where
  "normalize_url env nowRequestId c =
     (case cleanUrl env (req c) of
        None \<Rightarrow> Inr c
      | Some location \<Rightarrow>
          if req_method (req c) = Some ''GET''
          then Inl (c\<lparr>res := sendRedirect (req c) nowRequestId location 301 (res c)\<rparr>)
          else Inr (c\<lparr>req := (req c)\<lparr>req_url := Some location\<rparr>\<rparr>))"

text \<open>
  The middle of \<open>serveProjectAsNowV2\<close>, from \<open>updateBuildMatches\<close> to the routes of
  the build result: the router is asked, the headers of the route are set (which
  throws when \<open>res.setHeader\<close> does not accept one of them), a URL as
  destination is proxied (the headers of the server are set and the response is handed
  to \<open>proxyPass\<close>), a status is set and a redirect status redirects (which throws
  when the route has set no \<open>location\<close> header), and the build match of the request
  path is looked up. The outcome is a response, or a build match
  with what the rest of the function needs: the request path, the key of the build
  result, the status and the \<open>uri_args\<close> of the route, and, when the build result has
  routes of its own that match, the new URL with those routes.
\<close>

record 'r matched =
  m_match :: "'r BuildMatch"
  m_requestPath :: string
  m_buildRequestPath :: "string option"
  m_status :: "nat option"
  m_uri_args :: "string js_object"
  m_subroute :: "(string \<times> 'r list option) option"

datatype 'r routed =
    Responded "(js_error \<times> 'r conn) + 'r conn"
  | Matched "'r matched" "'r conn"

text \<open>
  \<^verbatim>\<open>function proxyPass(req, res, dest, output) {
    const proxy = httpProxy.createProxyServer({ changeOrigin: true, ws: true, xfwd: true,
      ignorePath: true, target: dest });
    proxy.on('error', error => {
      if (error.code === 'ECONNRESET') { res.end(); return; }
      output.error(`Failed to complete request to ${req.url}: ${error}`); });
    return proxy.web(req, res); }\<close>
  The response is in the hands of the proxy. On an error with the code
  \<open>ECONNRESET\<close> the handler ends the response; on another error it only reports.
\<close>

definition proxyPass :: "'r dev_env \<Rightarrow> IncomingMessage \<Rightarrow> ServerResponse \<Rightarrow> string \<Rightarrow> ServerResponse" where
  "proxyPass env rq rs dest =
     (case proxy_web env rq rs dest of
        Relayed rs' \<Rightarrow> rs'
      | ProxyError code rs' \<Rightarrow>
          if code = Some ''ECONNRESET'' then end_response (Raw []) rs' else rs')"

text \<open>
  The error with which \<open>res.setHeader(name, undefined)\<close> throws, by its message:
  \<open>Invalid value "undefined" for header "location"\<close> for the name \<open>location\<close>.
\<close>

definition invalid_header_value :: "string \<Rightarrow> js_error" where
  "invalid_header_value name =
     Error (''Invalid value '' @ [CHR 0x22] @ ''undefined'' @ [CHR 0x22] @ '' for header '' @
            [CHR 0x22] @ name @ [CHR 0x22])"

definition directory_response :: "string \<Rightarrow> string \<Rightarrow> ServerResponse \<Rightarrow> ServerResponse" where
  "directory_response nowRequestId html rs =
     end_response (Directory html)
       (setHeader ''Content-Length'' (show_nat (length html))
          (setHeader ''Content-Type'' ''text/html; charset=utf-8''
             (setResponseHeaders nowRequestId [] rs)))"

definition subroute_of ::
  "'r dev_env \<Rightarrow> 'r BuildMatch list \<Rightarrow> IncomingMessage \<Rightarrow> RouteResult \<Rightarrow> 'r BuildResult option
     \<Rightarrow> (string \<times> 'r list option) option" where
  "subroute_of env ms rq r buildResult =
     (case buildResult of
        None \<Rightarrow> None
      | Some br \<Rightarrow>
          (case routes br of
             None \<Rightarrow> None
           | Some rs \<Rightarrow>
               if length rs > 0 then
                 (let newUrl = mixQuery env (url_or_slash rq) (Some (rr_dest r)) (rr_uri_args r);
                      matchedRoute = devRouter env (Some newUrl) (req_method rq) (Some rs)
                                       (hasFilesystem ms)
                  in if rr_found matchedRoute then Some (newUrl, Some rs) else None)
               else None))"

definition route_request :: "'r dev_env \<Rightarrow> string \<Rightarrow> 'r list option \<Rightarrow> 'r conn \<Rightarrow> 'r routed" where
  "route_request env nowRequestId rts c0 =
     (let ms = refreshBuildMatches env (buildMatches c0);
          r = devRouter env (req_url (req c0)) (req_method (req c0)) rts (hasFilesystem ms)
      in case setHeaders (setHeader_error env) (rr_headers r) (res c0) of
           Inl (err, rs) \<Rightarrow> Responded (Inl (err, c0\<lparr>buildMatches := ms, res := rs\<rparr>))
         | Inr rs \<Rightarrow>
             (let c1 = c0\<lparr>buildMatches := ms, res := rs\<rparr>
              in if isURL env (rr_dest r) then
                  (let destUrl = mixQuery env (rr_dest r) None (rr_uri_args r);
                       handed = setResponseHeaders nowRequestId [] (res c1)
                   in Responded (Inr (c1\<lparr>res := proxyPass env (req c1) handed destUrl,
                                          proxied := proxied c1 @ [(handed, destUrl)]\<rparr>)))
                else
                  (let c2 = (case rr_status r of
                               None \<Rightarrow> c1
                             | Some status \<Rightarrow>
                                 if status \<noteq> 0 then c1\<lparr>res := (res c1)\<lparr>res_statusCode := status\<rparr>\<rparr> else c1);
                       redirect = (case rr_status r of
                                     None \<Rightarrow> None
                                   | Some status \<Rightarrow> if status \<in> set [301, 302, 303] then Some status else None)
                   in case redirect of
                        Some status \<Rightarrow>
                          (case getHeader ''location'' (res c2) of
                             Some location \<Rightarrow>
                               Responded (Inr (c2\<lparr>res :=
                                 sendRedirect (req c2) nowRequestId location status (res c2)\<rparr>))
                           | None \<Rightarrow>
                               Responded (Inl (invalid_header_value ''location'',
                                 c2\<lparr>res := setHeader ''cache-control'' ''public, max-age=0, must-revalidate''
                                             (res c2)\<rparr>)))
                      | None \<Rightarrow>
                          (let requestPath = strip_leading_slash (rr_dest r)
                           in case findBuildMatch env ms requestPath False of
                                None \<Rightarrow>
                                  if rr_status r = Some 404 then
                                    Responded (Inr (c2\<lparr>res := send404 (req c2) nowRequestId (res c2)\<rparr>))
                                  else
                                    (case directoryHtml env ms requestPath of
                                       Some html \<Rightarrow>
                                         Responded (Inr (c2\<lparr>res :=
                                           directory_response nowRequestId html (res c2)\<rparr>))
                                     | None \<Rightarrow>
                                         Responded (Inr (c2\<lparr>res :=
                                           send404 (req c2) nowRequestId (res c2)\<rparr>)))
                              | Some match \<Rightarrow>
                                  (let buildRequestPath =
                                         (if map_of (buildResults match) None \<noteq> None then None
                                          else Some requestPath);
                                       buildResult = map_of (buildResults match) buildRequestPath
                                   in Matched
                                        \<lparr>m_match = match, m_requestPath = requestPath,
                                         m_buildRequestPath = buildRequestPath,
                                         m_status = rr_status r, m_uri_args = rr_uri_args r,
                                         m_subroute = subroute_of env ms (req c2) r buildResult\<rparr>
                                        c2)))))"

text \<open>
  The headers that the function gets, \<open>getNowProxyHeaders\<close>; a value that is
  \<open>undefined\<close> is \<open>None\<close>. \<open>nowRequestId.split('-')[2]\<close> is the third part of
  the identifier.
\<close>

fun split_on :: "char \<Rightarrow> string \<Rightarrow> string list" where
  "split_on sep [] = [[]]"
| "split_on sep (c # cs) =
     (if c = sep then [] # split_on sep cs
      else (case split_on sep cs of [] \<Rightarrow> [[c]] | w # ws \<Rightarrow> (c # w) # ws))"

definition nth_opt :: "'a list \<Rightarrow> nat \<Rightarrow> 'a option" where
  "nth_opt xs i = (if i < length xs then Some (xs ! i) else None)"

definition getRequestIp :: "'r dev_env \<Rightarrow> IncomingMessage \<Rightarrow> string" where
  "getRequestIp env rq =
     (case remoteAddress env rq of None \<Rightarrow> ''127.0.0.1'' | Some a \<Rightarrow> if a = [] then ''127.0.0.1'' else a)"

definition getNowProxyHeaders ::
  "'r dev_env \<Rightarrow> IncomingMessage \<Rightarrow> string \<Rightarrow> string option js_object" where
  "getNowProxyHeaders env rq nowRequestId =
     (let ip = getRequestIp env rq;
          host = obj_get (req_headers rq) ''host''
      in obj_assign (obj_assign [] (map (\<lambda>(name, v). (name, Some v)) (req_headers rq)))
           [(''Connection'', Some ''close''),
            (''x-forwarded-host'', host),
            (''x-forwarded-proto'', Some ''http''),
            (''x-forwarded-for'', Some ip),
            (''x-real-ip'', Some ip),
            (''x-now-trace'', Some ''dev1''),
            (''x-now-deployment-url'', host),
            (''x-now-id'', Some nowRequestId),
            (''x-now-log-id'', nth_opt (split_on CHR ''-'' nowRequestId) 2),
            (''x-zeit-co-forwarded-for'', Some ip)])"

text \<open>
  The \<open>Lambda\<close> case of the \<open>switch\<close>: without a function the answer is an error
  500; the body is read, which may throw; the function is invoked, and when it throws
  the answer is an error 502; otherwise the status code of the result is set when the
  route gave no status, the headers of the result are set together with those of the
  server (\<open>setResponseHeaders\<close> with headers from outside, which throws when
  \<open>res.setHeader\<close> does not accept one of them), and the response ends with the
  result.
\<close>

definition invokeLambda ::
  "'r dev_env \<Rightarrow> string \<Rightarrow> nat option \<Rightarrow> string js_object
     \<Rightarrow> (InvokePayload \<Rightarrow> js_error + InvokeResult) option \<Rightarrow> 'r conn
     \<Rightarrow> (js_error \<times> 'r conn) + 'r conn" where
  "invokeLambda env nowRequestId status uri_args fn c =
     (case fn of
        None \<Rightarrow>
          Inr (c\<lparr>res := sendError (req c) nowRequestId (Some ''INTERNAL_LAMBDA_NOT_FOUND'') 500 (res c)\<rparr>)
      | Some f \<Rightarrow>
          (case rawBody env (req c) of
             Inl err \<Rightarrow> Inl (err, c)
           | Inr body \<Rightarrow>
               (let payload =
                      \<lparr>ip_method = (case req_method (req c) of
                                      None \<Rightarrow> ''GET''
                                    | Some m \<Rightarrow> if m = [] then ''GET'' else m),
                       ip_host = obj_get (req_headers (req c)) ''host'',
                       ip_path = mixQuery env (url_or_slash (req c)) None uri_args,
                       ip_headers = getNowProxyHeaders env (req c) nowRequestId,
                       ip_encoding = ''base64'',
                       ip_body = base64 env body\<rparr>
                in case f payload of
                     Inl err \<Rightarrow>
                       Inr (c\<lparr>res := sendError (req c) nowRequestId
                                        (Some ''NO_STATUS_CODE_FROM_LAMBDA'') 502 (res c)\<rparr>)
                   | Inr result \<Rightarrow>
                       (let rs = (if \<not> truthy status
                                  then (res c)\<lparr>res_statusCode := ir_statusCode result\<rparr>
                                  else res c)
                        in case setHeaders (setHeader_error env)
                                  (allHeaders nowRequestId (ir_headers result)) rs of
                             Inl (err, rs') \<Rightarrow> Inl (err, c\<lparr>res := rs'\<rparr>)
                           | Inr rs' \<Rightarrow> Inr (c\<lparr>res := end_response (Invoked result) rs'\<rparr>)))))"

text \<open>
  The end of \<open>serveProjectAsNowV2\<close>, from the first \<open>findAsset\<close>:
  \<^verbatim>\<open>
  let foundAsset = findAsset(match, requestPath);
  if ((!foundAsset || this.shouldRebuild(req)) && callLevel === 0) {
    await this.triggerBuild(match, buildRequestPath, req);
    foundAsset = findAsset(match, requestPath);
  }
  if (!foundAsset) { await this.send404(req, res, nowRequestId); return; }
  const { asset, assetKey } = foundAsset;
  switch (asset.type) { ... }\<close>
  \<open>triggerBuild\<close> changes the match object, which the \<open>Map\<close> of the server holds.
\<close>

definition replace_match :: "'r BuildMatch \<Rightarrow> 'r BuildMatch list \<Rightarrow> 'r BuildMatch list" where
  "replace_match match ms = map (\<lambda>m. if src m = src match then match else m) ms"

definition serve_found ::
  "'r dev_env \<Rightarrow> string \<Rightarrow> 'r matched \<Rightarrow> (BuilderOutput \<times> string) option \<Rightarrow> 'r conn
     \<Rightarrow> (js_error \<times> 'r conn) + 'r conn" where
  "serve_found env nowRequestId m foundAsset c =
     (case foundAsset of
        None \<Rightarrow> Inr (c\<lparr>res := send404 (req c) nowRequestId (res c)\<rparr>)
      | Some (asset, assetKey) \<Rightarrow>
          (case asset of
             FileFsRef fsPath \<Rightarrow>
               Inr (c\<lparr>req := (req c)\<lparr>req_url := Some (''/'' @ basename fsPath [])\<rparr>,
                      res := end_response (Static (dirname fsPath) (getMimeType env assetKey))
                               (setResponseHeaders nowRequestId [] (res c))\<rparr>)
           | FileBlob data contentType \<Rightarrow>
               Inr (c\<lparr>res := end_response (Raw data)
                               (setResponseHeaders nowRequestId
                                  [(''Content-Length'', show_nat (length data)),
                                   (''Content-Type'', getMimeType env assetKey)] (res c))\<rparr>)
           | Lambda fn \<Rightarrow> invokeLambda env nowRequestId (m_status m) (m_uri_args m) fn c
           | OtherOutput t \<Rightarrow>
               Inr (c\<lparr>res := sendError (req c) nowRequestId (Some ''UNKNOWN_ASSET_TYPE'') 500 (res c)\<rparr>)
           | PrototypeMember name \<Rightarrow>
               Inr (c\<lparr>res := sendError (req c) nowRequestId (Some ''UNKNOWN_ASSET_TYPE'') 500 (res c)\<rparr>)))"

definition serve_asset ::
  "'r dev_env \<Rightarrow> string \<Rightarrow> nat \<Rightarrow> 'r matched \<Rightarrow> 'r conn \<Rightarrow> (js_error \<times> 'r conn) + 'r conn" where
  "serve_asset env nowRequestId callLevel m c =
     (let foundAsset = findAsset (m_match m) (m_requestPath m)
      in if (foundAsset = None \<or> shouldRebuild (req c)) \<and> callLevel = 0 then
           (let c' = c\<lparr>triggered := triggered c @ [(src (m_match m), m_buildRequestPath m)]\<rparr>
            in case awaitTriggerBuild env (m_match m) (m_buildRequestPath m) of
                 Inl err \<Rightarrow> Inl (err, c')
               | Inr match' \<Rightarrow>
                   serve_found env nowRequestId m (findAsset match' (m_requestPath m))
                     (c'\<lparr>buildMatches := replace_match match' (buildMatches c')\<rparr>))
         else serve_found env nowRequestId m foundAsset c)"

text \<open>
  \<open>serveProjectAsNowV2\<close> as a whole. \<open>serve_routed\<close> is the function after the head:
  when the routes of the build result match and \<open>callLevel\<close> is 0, the URL of the
  request becomes the new URL and the function calls itself, head included, with those
  routes and \<open>callLevel + 1\<close>.
\<close>

function serve_routed ::
  "'r dev_env \<Rightarrow> string \<Rightarrow> 'r list option \<Rightarrow> nat \<Rightarrow> 'r conn \<Rightarrow> (js_error \<times> 'r conn) + 'r conn" where
  "serve_routed env nowRequestId rts callLevel c =
     (case route_request env nowRequestId rts c of
        Responded r \<Rightarrow> r
      | Matched m c' \<Rightarrow>
          (case m_subroute m of
             None \<Rightarrow> serve_asset env nowRequestId callLevel m c'
           | Some (newUrl, rts') \<Rightarrow>
               if callLevel = 0 then
                 (case normalize_url env nowRequestId (c'\<lparr>req := (req c')\<lparr>req_url := Some newUrl\<rparr>\<rparr>) of
                    Inl redirected \<Rightarrow> Inr redirected
                  | Inr c'' \<Rightarrow> serve_routed env nowRequestId rts' (callLevel + 1) c'')
               else serve_asset env nowRequestId callLevel m c'))"
  by pat_completeness auto
termination
  by (relation "measure (\<lambda>(env, nowRequestId, rts, callLevel, c). 1 - callLevel)") auto

declare serve_routed.simps [simp del]

definition serveProjectAsNowV2 ::
  "'r dev_env \<Rightarrow> string \<Rightarrow> 'r list option \<Rightarrow> nat \<Rightarrow> 'r conn \<Rightarrow> (js_error \<times> 'r conn) + 'r conn" where
  "serveProjectAsNowV2 env nowRequestId rts callLevel c =
     (case normalize_url env nowRequestId c of
        Inl redirected \<Rightarrow> Inr redirected
      | Inr c' \<Rightarrow> serve_routed env nowRequestId rts callLevel c')"

text \<open>
  \<open>devServerHandler\<close>: the request gets its identifier; a server that is stopping
  answers 404 with \<open>Connection: close\<close>; otherwise the configuration is read
  (\<open>nowConfig\<close> is what \<open>await this.getNowConfig()\<close> ends in, an error or the
  configuration, of which the dispatcher takes the routes) and the project is served
  with its routes; an error that escapes from either is answered, if the response is
  not finished, with the status 500 and the message of the error.
\<close>

definition devServerHandler ::
  "'r dev_env \<Rightarrow> string \<Rightarrow> int \<Rightarrow> nat list \<Rightarrow> bool \<Rightarrow> js_error + 'r list option \<Rightarrow> 'r conn
     \<Rightarrow> 'r conn" where
  "devServerHandler env podId now randomBytes6 stopping nowConfig c =
     (let nowRequestId = generateRequestId podId now randomBytes6
      in if stopping then
           c\<lparr>res := send404 (req c) nowRequestId (setHeader ''Connection'' ''close'' (res c))\<rparr>
         else
           (case (case nowConfig of
                    Inl err \<Rightarrow> Inl (err, c)
                  | Inr rts \<Rightarrow> serveProjectAsNowV2 env nowRequestId rts 0 c) of
              Inr c' \<Rightarrow> c'
            | Inl (Error message, c') \<Rightarrow>
                if res_body (res c') = None
                then c'\<lparr>res := end_response (Raw message) ((res c')\<lparr>res_statusCode := 500\<rparr>)\<rparr>
                else c'))"

text \<open>
  The connection at the end of the dispatch, whether it returned or threw, and the one
  way in which a response that went through \<open>setResponseHeaders\<close> can carry another
  \<open>x-now-id\<close> than the identifier of the request: the headers of a function's result
  have the key \<open>x-now-id\<close> themselves, so that the spread keeps the key at their
  position, and after it they have a key that is another spelling of the name, which
  \<open>res.setHeader\<close> stores under the same lower-case name.
\<close>

definition conn_of :: "(js_error \<times> 'r conn) + 'r conn \<Rightarrow> 'r conn" where
  "conn_of r = (case r of Inl (err, c) \<Rightarrow> c | Inr c \<Rightarrow> c)"

definition respells_id :: "string js_object \<Rightarrow> bool" where
  "respells_id headers =
     list_ex (\<lambda>name. name \<noteq> ''x-now-id'' \<and> toLowerCase name = ''x-now-id'')
       (dropWhile (\<lambda>name. name \<noteq> ''x-now-id'') (map fst headers))"

definition function_respells_id :: "ServerResponse \<Rightarrow> bool" where
  "function_respells_id rs =
     (case res_body rs of
        Some (Invoked result) \<Rightarrow> respells_id (ir_headers result)
      | _ \<Rightarrow> False)"

text \<open>
  What is to hold of a connection at the end of a dispatch that began with the calls
  \<open>before\<close> of \<open>proxyPass\<close>. Either no call was added, and the response has the
  identifier of the request in \<open>x-now-id\<close> unless a function respelled the name; or
  one call was added, the response that was handed over had the identifier, and the
  response is what \<open>proxyPass\<close> made of it.
\<close>

definition carries_id ::
  "'r dev_env \<Rightarrow> string \<Rightarrow> (ServerResponse \<times> string) list \<Rightarrow> 'r conn \<Rightarrow> bool" where
  "carries_id env nowRequestId before c =
     (if proxied c = before then
        getHeader ''x-now-id'' (res c) = Some nowRequestId \<or> function_respells_id (res c)
      else
        (case last (proxied c) of
           (rs, dest) \<Rightarrow>
             proxied c = before @ [(rs, dest)] \<and>
             getHeader ''x-now-id'' rs = Some nowRequestId \<and>
             res c = proxyPass env (req c) rs dest))"
subsection \<open>Concrete inputs\<close>

text \<open>
  The inputs at which the theorems below are instantiated: a build match with three
  outputs, first of all.
\<close>

definition ex_match :: "unit BuildMatch" where
  "ex_match =
     \<lparr>src = ''pages/**'', use = ''@now/static'', builder_shouldServe = None, buildTimestamp = 0,
      buildResults = [],
      buildOutput = Some [(''a.js'', FileFsRef ''/p/a.js''),
                          (''dir/index.html'', FileBlob ''hi'' None),
                          (''dir/index.js'', FileBlob ''js'' None)]\<rparr>"

text \<open>A batch of filesystem events under \<open>/cwd\<close>, with what reading each file gives.\<close>

definition ex_events :: "(FSEvent \<times> fromFsPath_result) list" where
  "ex_events =
    [(\<lparr>ev_type = ''add'', ev_path = ''/cwd/a''\<rparr>, Ref \<lparr>mode = 420, ref_fsPath = ''/cwd/a''\<rparr>),
     (\<lparr>ev_type = ''unlink'', ev_path = ''/cwd/a''\<rparr>, ThrowsENOENT),
     (\<lparr>ev_type = ''change'', ev_path = ''/cwd/dist/out.js''\<rparr>, Ref \<lparr>mode = 420, ref_fsPath = ''/cwd/dist/out.js''\<rparr>),
     (\<lparr>ev_type = ''unlink'', ev_path = ''/cwd/b''\<rparr>, ThrowsENOENT),
     (\<lparr>ev_type = ''change'', ev_path = ''/cwd/b''\<rparr>, Ref \<lparr>mode = 420, ref_fsPath = ''/cwd/b''\<rparr>),
     (\<lparr>ev_type = ''add'', ev_path = ''/cwd/c''\<rparr>, ThrowsENOENT)]"

text \<open>The \<open>env\<close> of a configuration and the contents of a \<open>.env\<close> file.\<close>

definition ex_env :: EnvConfig where
  "ex_env = [(''API_KEY'', EnvString ''@api-key''), (''MODE'', EnvString ''dev''),
             (''1BAD'', EnvString ''x'')]"

definition ex_localEnv :: EnvConfig where
  "ex_localEnv = [(''API_KEY'', EnvString ''secret''), (''MODE'', EnvString ''prod''),
                  (''my-var'', EnvString ''y'')]"

text \<open>
  Two calls of \<open>triggerBuild\<close> for the request path \<open>api/x\<close> of the same match
  at the time 5000, the second entered while the first waits for the configuration.
\<close>

definition ex_race :: "unit scheduler_event list" where
  "ex_race =
     [Trigger 0 (Some ''api/x'') None 5000, Trigger 0 (Some ''api/x'') None 5000,
      NowConfigResolves 0, NowConfigResolves 1]"

text \<open>
  A trigger at the time 10000, whose build stamps the match when it is done; the first
  call returns, and a second trigger follows at the time \<open>t2\<close>.
\<close>

definition ex_cooldown :: "int \<Rightarrow> int \<Rightarrow> unit scheduler_event list" where
  "ex_cooldown stamp t2 =
     [Trigger 0 (Some ''api/x'') None 10000, NowConfigResolves 0, BuildSettles 0 True stamp,
      BuildAwaited 0, Trigger 0 (Some ''api/x'') None t2, NowConfigResolves 1, BuildAwaited 1]"

text \<open>
  A server for the examples of the dispatcher: \<open>url.parse\<close> on a path with an
  optional query; a router that sends every URL to its own path with a given status
  and finds a route whenever it is given routes; a given outcome of \<open>triggerBuild\<close>.
\<close>

definition ex_url_parse :: "string \<Rightarrow> string option \<times> string option" where
  "ex_url_parse u =
     (let p = takeWhile (\<lambda>c. c \<noteq> CHR ''?'') u; q = dropWhile (\<lambda>c. c \<noteq> CHR ''?'') u
      in (if p = [] then None else Some p, if q = [] then None else Some q))"

definition ex_router ::
  "nat option \<Rightarrow> string option \<Rightarrow> string option \<Rightarrow> unit list option \<Rightarrow> (string \<Rightarrow> bool) \<Rightarrow> RouteResult" where
  "ex_router status u method rts hasFs =
     \<lparr>rr_found = (rts \<noteq> None),
      rr_dest = takeWhile (\<lambda>c. c \<noteq> CHR ''?'') (case u of None \<Rightarrow> ''/'' | Some v \<Rightarrow> v),
      rr_status = status, rr_headers = [], rr_uri_args = []\<rparr>"

text \<open>
  An upstream that answers 200 with an \<open>x-now-id\<close> of its own, as a deployment
  does, and a proxy that relays status, headers and body to the response, setting
  each header of the upstream with \<open>res.setHeader\<close>.
\<close>

definition ex_proxy_web :: "IncomingMessage \<Rightarrow> ServerResponse \<Rightarrow> string \<Rightarrow> proxy_outcome" where
  "ex_proxy_web rq rs dest =
     Relayed (end_response (Proxied dest)
       (fold (\<lambda>(name, v) r. setHeader name v r)
          [(''content-type'', ''text/html''), (''x-now-id'', ''upstream-id'')]
          (rs\<lparr>res_statusCode := 200\<rparr>)))"

definition ex_dev_env ::
  "nat option \<Rightarrow> (unit BuildMatch \<Rightarrow> string option \<Rightarrow> js_error + unit BuildMatch) \<Rightarrow> unit dev_env" where
  "ex_dev_env status trigger =
     \<lparr>url_parse = ex_url_parse, devRouter = ex_router status,
      isURL = (\<lambda>d. prefix ''http'' d), getMimeType = (\<lambda>k. ''text/plain''),
      mixQuery = (\<lambda>u p args. case p of None \<Rightarrow> u | Some q \<Rightarrow> q),
      refreshBuildMatches = (\<lambda>ms. ms), awaitTriggerBuild = trigger,
      directoryHtml = (\<lambda>ms p. None), rawBody = (\<lambda>rq. Inr ''hello''),
      base64 = (\<lambda>b. ''aGVsbG8=''), remoteAddress = (\<lambda>rq. None),
      setHeader_error = (\<lambda>name v. None), proxy_web = ex_proxy_web\<rparr>"

text \<open>
  The same server with a router that sends every request to a deployment, which
  \<open>isURL\<close> takes for a URL.
\<close>

definition ex_proxy_env :: "unit dev_env" where
  "ex_proxy_env =
     (ex_dev_env None (\<lambda>m p. Inr m))
       \<lparr>devRouter := (\<lambda>u method rts hasFs.
          \<lparr>rr_found = True, rr_dest = ''https://example.now.sh/api'', rr_status = None,
           rr_headers = [], rr_uri_args = []\<rparr>)\<rparr>"

definition ex_conn :: "string \<Rightarrow> string \<Rightarrow> string js_object \<Rightarrow> unit BuildMatch list \<Rightarrow> unit conn" where
  "ex_conn method u hs ms =
     \<lparr>req = \<lparr>req_method = Some method, req_url = Some u, req_headers = hs\<rparr>,
      res = \<lparr>res_statusCode = 200, res_headers = [], res_body = None\<rparr>,
      buildMatches = ms, triggered = [], proxied = []\<rparr>"

text \<open>
  A function that answers 202, and three build matches: one whose output is that
  function at \<open>api/x\<close>; one with a blob at \<open>api/x\<close> whose build result has
  routes of its own; and one whose builder serves every path and has built nothing.
\<close>

definition ex_result :: InvokeResult where
  "ex_result = \<lparr>ir_statusCode = 202, ir_headers = [(''x'', ''y'')], ir_body = Some ''b2s='',
                ir_encoding = Some ''base64''\<rparr>"

definition ex_lambda_match :: "unit BuildMatch" where
  "ex_lambda_match =
     \<lparr>src = ''api/x.js'', use = ''@now/node'', builder_shouldServe = None, buildTimestamp = 0,
      buildResults = [(None, \<lparr>br_output = [(''api/x'', Lambda (Some (\<lambda>payload. Inr ex_result)))],
                              routes = None\<rparr>)],
      buildOutput = Some [(''api/x'', Lambda (Some (\<lambda>payload. Inr ex_result)))]\<rparr>"

definition ex_routes_match :: "unit BuildMatch" where
  "ex_routes_match =
     \<lparr>src = ''package.json'', use = ''@now/static-build'', builder_shouldServe = None,
      buildTimestamp = 0,
      buildResults = [(None, \<lparr>br_output = [(''api/x'', FileBlob ''old'' None)],
                              routes = Some [()]\<rparr>)],
      buildOutput = Some [(''api/x'', FileBlob ''old'' None)]\<rparr>"

definition ex_lazy_match :: "unit BuildMatch" where
  "ex_lazy_match =
     \<lparr>src = ''pages/nope.js'', use = ''@now/next'', builder_shouldServe = Some (\<lambda>p. True),
      buildTimestamp = 0, buildResults = [], buildOutput = Some []\<rparr>"

text \<open>
  A failing build, and a function whose result names the header \<open>x-now-id\<close> twice,
  in two spellings.
\<close>

definition ex_failing_build :: "unit BuildMatch \<Rightarrow> string option \<Rightarrow> js_error + unit BuildMatch" where
  "ex_failing_build m p = Inl (Error ''Build failed'')"

definition ex_respelling_result :: InvokeResult where
  "ex_respelling_result =
     \<lparr>ir_statusCode = 200, ir_headers = [(''x-now-id'', ''a''), (''X-Now-Id'', ''b'')],
      ir_body = Some ''ok'', ir_encoding = None\<rparr>"

definition ex_respelling_match :: "unit BuildMatch" where
  "ex_respelling_match =
     \<lparr>src = ''api/y.js'', use = ''@now/node'', builder_shouldServe = None, buildTimestamp = 0,
      buildResults = [],
      buildOutput = Some [(''api/y'', Lambda (Some (\<lambda>payload. Inr ex_respelling_result)))]\<rparr>"

section \<open>Properties\<close>

subsection \<open>Objects\<close>

lemma map_of_obj_overwrite:
  "map_of (map (\<lambda>(k', v'). if k' = k then (k', v) else (k', v')) obj) x =
     (if x = k then (case map_of obj k of None \<Rightarrow> None | Some u \<Rightarrow> Some v) else map_of obj x)"
  by (induction obj) (auto split: option.splits)

lemma map_of_obj_set: "map_of (obj_set k v obj) = (map_of obj)(k \<mapsto> v)"
  by (auto simp: obj_set_def map_of_obj_overwrite fun_eq_iff map_add_def split: option.splits)

lemma obj_get_obj_set: "obj_get (obj_set k v obj) x = (if x = k then Some v else obj_get obj x)"
  by (simp add: obj_get_def map_of_obj_set)

lemma map_of_obj_delete: "map_of (obj_delete k obj) = (map_of obj)(k := None)"
  by (induction obj) (auto simp: obj_delete_def fun_eq_iff)

lemma obj_get_obj_delete: "obj_get (obj_delete k obj) x = (if x = k then None else obj_get obj x)"
  by (simp add: obj_get_def map_of_obj_delete)

lemma map_of_obj_assign:
  "map_of (obj_assign target source) = map_of target ++ map_of (rev source)"
proof (induction source arbitrary: target)
  case Nil
  then show ?case by (simp add: obj_assign_def)
next
  case (Cons kv source)
  obtain k v where kv: "kv = (k, v)" by (cases kv)
  have "obj_assign target (kv # source) = obj_assign (obj_set k v target) source"
    by (simp add: obj_assign_def kv)
  then have "map_of (obj_assign target (kv # source)) =
      map_of (obj_set k v target) ++ map_of (rev source)"
    by (simp only: Cons.IH)
  also have "\<dots> = map_of target ++ map_of (rev (kv # source))"
    by (auto simp: kv map_of_obj_set map_add_def fun_eq_iff split: option.splits)
  finally show ?case .
qed

lemma map_of_rev_distinct: "distinct (map fst xs) \<Longrightarrow> map_of (rev xs) = map_of xs"
proof (induction xs)
  case Nil
  then show ?case by simp
next
  case (Cons kv xs)
  obtain k v where kv: "kv = (k, v)" by (cases kv)
  from Cons.prems have "map_of xs k = None"
    by (simp add: kv map_of_eq_None_iff)
  with Cons show ?case
    by (auto simp: kv map_add_def fun_eq_iff split: option.splits)
qed

lemma map_of_spread2:
  "map_of (spread2 a b) = map_of (rev a) ++ map_of (rev b)"
  by (simp add: spread2_def map_of_obj_assign)

subsection \<open>Build keys\<close>

text \<open>
  Claim C3, as amended. The build key of a match and a request path is the \<open>src\<close> of
  the match when the request path is \<open>null\<close>, and otherwise \<open>src\<close>, a hyphen and
  the request path.
\<close>

theorem buildKey_hyphen:
  "buildKey match None = src match \<and>
   buildKey match (Some requestPath) = src match @ ''-'' @ requestPath"
  by (simp add: buildKey_def)

text \<open>
  Claim C3 as stated fails: for the entrypoint \<open>pages/**\<close> and the request path
  \<open>b\<close> the key is not \<open>src\<close>, a newline and the request path.
\<close>

theorem buildKey_newline_counterexample:
  "buildKey ex_match (Some ''b'') \<noteq> src ex_match @ [CHR 0x0A] @ ''b''"
  by (simp add: buildKey_def ex_match_def)

subsection \<open>Asset lookup\<close>

lemma read_buildOutput_own:
  "obj_get out P = Some asset \<Longrightarrow> read_buildOutput out P = Some asset"
  by (simp add: read_buildOutput_def)

lemma read_buildOutput_None:
  "read_buildOutput out P = None \<longleftrightarrow> obj_get out P = None \<and> P \<notin> set Object_prototype"
  by (simp add: read_buildOutput_def split: option.splits)

lemma findAsset_exact:
  assumes "buildOutput match = Some out" and "obj_get out P = Some asset"
  shows "findAsset match P = Some (asset, strip_trailing_slash P)"
  using assms by (simp add: findAsset_def read_buildOutput_own)

text \<open>
  The fallback of \<open>findAsset\<close>. When the match has a \<open>buildOutput\<close>, no asset is
  stored at the request path \<open>P\<close> itself and \<open>P\<close> is not the name of a member of
  \<open>Object.prototype\<close>, \<open>findAsset\<close> returns the first entry of the build output
  whose name is an index (its base name without the extension is \<open>index\<close>) and whose
  directory (\<open>dirnameWithoutDot\<close>, the directory name with \<open>.\<close> read as the empty
  path) is \<open>P\<close> without its trailing slash, under the entry's own name; it returns
  nothing if and only if there is no such entry.
\<close>

lemma findAsset_fallback:
  assumes "buildOutput match = Some out" and "obj_get out P = None"
    and "P \<notin> set Object_prototype"
  shows "(findAsset match P = None \<longleftrightarrow>
            (\<forall>i<length out. \<not> (isIndex (fst (out ! i)) \<and>
                 dirnameWithoutDot (fst (out ! i)) = strip_trailing_slash P))) \<and>
         (\<forall>a key. findAsset match P = Some (a, key) \<longleftrightarrow>
            (\<exists>i<length out. out ! i = (key, a) \<and> isIndex key \<and>
               dirnameWithoutDot key = strip_trailing_slash P \<and>
               (\<forall>j<i. \<not> (isIndex (fst (out ! j)) \<and>
                  dirnameWithoutDot (fst (out ! j)) = strip_trailing_slash P))))"
proof -
  let ?Q = "\<lambda>(name, a::BuilderOutput).
              isIndex name \<and> dirnameWithoutDot name = strip_trailing_slash P"
  have "read_buildOutput out P = None"
    using assms by (simp add: read_buildOutput_None)
  then have eq: "findAsset match P =
      (case find ?Q out of Some (name, a) \<Rightarrow> Some (a, name) | None \<Rightarrow> None)"
    using assms by (simp add: findAsset_def)
  have none: "find ?Q out = None \<longleftrightarrow> (\<forall>i<length out. \<not> ?Q (out ! i))"
    by (auto simp: find_None_iff in_set_conv_nth)
  have some: "find ?Q out = Some (key, a) \<longleftrightarrow>
      (\<exists>i<length out. ?Q (out ! i) \<and> (key, a) = out ! i \<and> (\<forall>j<i. \<not> ?Q (out ! j)))"
    for key a
    by (rule find_Some_iff)
  have part1: "findAsset match P = None \<longleftrightarrow> find ?Q out = None"
    by (auto simp: eq split: option.splits)
  have part2: "findAsset match P = Some (a, key) \<longleftrightarrow> find ?Q out = Some (key, a)" for a key
    by (auto simp: eq split: option.splits)
  show ?thesis
    unfolding part1 part2 none some
    by (auto simp: case_prod_beta) (metis fst_conv)+
qed

text \<open>
  At the request path \<open>dir/\<close> the build output of the example has no entry, the
  entry \<open>a.js\<close> is no index, and the first index of \<open>dir\<close> is \<open>dir/index.html\<close>,
  which is preferred to \<open>dir/index.js\<close>.
\<close>

lemma findAsset_fallback_example:
  "findAsset ex_match ''dir/'' = Some (FileBlob ''hi'' None, ''dir/index.html'') \<and>
   isIndex ''dir/index.html'' \<and>
   dirnameWithoutDot ''dir/index.html'' = strip_trailing_slash ''dir/''"
proof -
  let ?out = "[(''a.js'', FileFsRef ''/p/a.js''),
               (''dir/index.html'', FileBlob ''hi'' None),
               (''dir/index.js'', FileBlob ''js'' None)]"
  have h1: "buildOutput ex_match = Some ?out" by (simp add: ex_match_def)
  have h2: "obj_get ?out ''dir/'' = None" by (simp add: obj_get_def)
  have h3: "''dir/'' \<notin> set Object_prototype" by (simp add: Object_prototype_def)
  have found: "findAsset ex_match ''dir/'' = Some (FileBlob ''hi'' None, ''dir/index.html'')"
    by (simp add: ex_match_def findAsset_def read_buildOutput_def Object_prototype_def obj_get_def
        isIndex_def dirnameWithoutDot_def
        dirname_def extname_def basename_def last_component_def strip_trailing_slash_def
        suffix_def Let_def)
  from findAsset_fallback [OF h1 h2 h3] found
  have "isIndex ''dir/index.html'' \<and>
        dirnameWithoutDot ''dir/index.html'' = strip_trailing_slash ''dir/''"
    by blast
  with found show ?thesis by simp
qed
subsection \<open>Filesystem events\<close>

lemma handleEvent_cases:
  "handleEvent relative (event, stat) (f, c, r) =
     (if ev_type event = ''add'' \<or> ev_type event = ''change'' then
        (case stat of
           Ref x \<Rightarrow> Inr (obj_put (relative (ev_path event)) x f,
                          insert (relative (ev_path event)) c, r - {relative (ev_path event)})
         | ThrowsENOENT \<Rightarrow> Inr (obj_delete (relative (ev_path event)) f,
                          c - {relative (ev_path event)}, insert (relative (ev_path event)) r)
         | Throws err \<Rightarrow> Inl err)
      else if ev_type event = ''unlink'' then
        Inr (obj_delete (relative (ev_path event)) f,
             c - {relative (ev_path event)}, insert (relative (ev_path event)) r)
      else Inr (f, c, r))"
  by (simp add: handleFileCreated_def handleFileModified_def handleFileDeleted_def
      fileChanged_def fileRemoved_def Let_def split: fromFsPath_result.split)

lemma handleEvent_sets:
  assumes "handleEvent relative e (f, c, r) = Inr (f1, c1, r1)"
  shows "(n \<in> c1 \<longleftrightarrow> (case map_of (mark_of relative e) n of Some b \<Rightarrow> b | None \<Rightarrow> n \<in> c)) \<and>
         (n \<in> r1 \<longleftrightarrow> (case map_of (mark_of relative e) n of Some b \<Rightarrow> \<not> b | None \<Rightarrow> n \<in> r))"
proof -
  obtain event stat where e: "e = (event, stat)" by (cases e)
  from assms show ?thesis
    unfolding e handleEvent_cases
    by (cases stat) (auto split: if_splits)
qed

lemma handleEvent_files:
  assumes "handleEvent relative e (f, c, r) = Inr (f1, c1, r1)"
  shows "(case map_of (mark_of relative e) n of
            Some b \<Rightarrow> (\<not> b \<longrightarrow> obj_get f1 n = None)
          | None \<Rightarrow> obj_get f1 n = obj_get f n)"
proof -
  obtain event stat where e: "e = (event, stat)" by (cases e)
  from assms show ?thesis
    unfolding e handleEvent_cases
    by (cases stat) (auto simp: obj_get_obj_delete obj_get_obj_set obj_put_def split: if_splits)
qed

lemma net_effect_Cons:
  "net_effect relative (e # events) n =
     (case net_effect relative events n of Some b \<Rightarrow> Some b | None \<Rightarrow> map_of (mark_of relative e) n)"
proof -
  obtain event stat where e: "e = (event, stat)" by (cases e)
  have one: "rev (mark_of relative e) = mark_of relative e"
    unfolding e by (cases stat) auto
  show ?thesis
    by (simp add: net_effect_def one map_add_def)
qed

lemma updateFiles_sets:
  "updateFiles relative events (f, c, r) = Inr (f', c', r') \<Longrightarrow>
     (n \<in> c' \<longleftrightarrow> (case net_effect relative events n of Some b \<Rightarrow> b | None \<Rightarrow> n \<in> c)) \<and>
     (n \<in> r' \<longleftrightarrow> (case net_effect relative events n of Some b \<Rightarrow> \<not> b | None \<Rightarrow> n \<in> r))"
proof (induction events arbitrary: f c r)
  case Nil
  then show ?case by (simp add: net_effect_def)
next
  case (Cons e events)
  from Cons.prems obtain f1 c1 r1 where
    step: "handleEvent relative e (f, c, r) = Inr (f1, c1, r1)" and
    rest: "updateFiles relative events (f1, c1, r1) = Inr (f', c', r')"
    by (auto split: sum.splits)
  from Cons.IH [OF rest] handleEvent_sets [OF step, of n]
  show ?case
    by (auto simp: net_effect_Cons split: option.splits)
qed

lemma updateFiles_files:
  "updateFiles relative events (f, c, r) = Inr (f', c', r') \<Longrightarrow>
     (case net_effect relative events n of
        Some b \<Rightarrow> (\<not> b \<longrightarrow> obj_get f' n = None)
      | None \<Rightarrow> obj_get f' n = obj_get f n)"
proof (induction events arbitrary: f c r)
  case Nil
  then show ?case by (simp add: net_effect_def)
next
  case (Cons e events)
  from Cons.prems obtain f1 c1 r1 where
    step: "handleEvent relative e (f, c, r) = Inr (f1, c1, r1)" and
    rest: "updateFiles relative events (f1, c1, r1) = Inr (f', c', r')"
    by (auto split: sum.splits)
  from Cons.IH [OF rest] handleEvent_files [OF step, of n]
  show ?case
    by (auto simp: net_effect_Cons split: option.splits)
qed

text \<open>
  Claim C6. When a batch of filesystem events has been handled, the sets \<open>changed\<close>
  and \<open>removed\<close> are disjoint and hold the net effect of the batch: a name is in
  \<open>changed\<close> exactly when the last event that marks it marks it changed, and in
  \<open>removed\<close> exactly when the last event that marks it marks it removed; a removed
  name is not in the file index. Marking a name changed adds it to \<open>changed\<close> and
  deletes it from \<open>removed\<close>; marking it removed deletes it from the file index and
  from \<open>changed\<close> and adds it to \<open>removed\<close>.
\<close>

theorem batch_sets_net_effect:
  assumes "handleFilesystemEvents relative distPaths events files = Inr (files', changed, removed)"
  shows "changed \<inter> removed = {} \<and>
         changed = {n. net_effect relative (outside_distPaths distPaths events) n = Some True} \<and>
         removed = {n. net_effect relative (outside_distPaths distPaths events) n = Some False} \<and>
         (\<forall>n\<in>removed. obj_get files' n = None) \<and>
         (\<forall>name c r. fileChanged name (c, r) = (insert name c, r - {name})) \<and>
         (\<forall>name f c r. fileRemoved name (f, c, r) = (obj_delete name f, c - {name}, insert name r))"
proof -
  let ?evs = "outside_distPaths distPaths events"
  from assms have run: "updateFiles relative ?evs (files, {}, {}) = Inr (files', changed, removed)"
    by (simp add: handleFilesystemEvents_def)
  have c: "changed = {n. net_effect relative ?evs n = Some True}"
  proof (rule set_eqI)
    fix n
    from updateFiles_sets [OF run, of n]
    show "n \<in> changed \<longleftrightarrow> n \<in> {n. net_effect relative ?evs n = Some True}"
      by (cases "net_effect relative ?evs n") simp_all
  qed
  have r: "removed = {n. net_effect relative ?evs n = Some False}"
  proof (rule set_eqI)
    fix n
    from updateFiles_sets [OF run, of n]
    show "n \<in> removed \<longleftrightarrow> n \<in> {n. net_effect relative ?evs n = Some False}"
      by (cases "net_effect relative ?evs n") simp_all
  qed
  have f: "\<forall>n\<in>removed. obj_get files' n = None"
  proof
    fix n assume "n \<in> removed"
    then have "net_effect relative ?evs n = Some False" by (simp add: r)
    with updateFiles_files [OF run, of n] show "obj_get files' n = None" by simp
  qed
  from c r have "changed \<inter> removed = {}" by auto
  with c r f show ?thesis by (simp add: fileChanged_def fileRemoved_def)
qed

text \<open>
  A batch of six events under \<open>/cwd\<close> with the \<open>distPath\<close> \<open>/cwd/dist\<close>:
  \<open>a\<close> is added and unlinked, \<open>b\<close> is unlinked and changed, \<open>c\<close> is added but
  gone when it is read, and the event under the \<open>distPath\<close> is dropped.
\<close>

lemma ex_events_run: "handleFilesystemEvents (drop 5) [''/cwd/dist''] ex_events [(''a'', \<lparr>mode = 420, ref_fsPath = ''/cwd/a''\<rparr>)]
   = Inr ([(''b'', \<lparr>mode = 420, ref_fsPath = ''/cwd/b''\<rparr>)], {''b''}, {''a'', ''c''})"
  by (simp add: handleFilesystemEvents_def outside_distPaths_def ex_events_def startsWith_def
      handleFileCreated_def handleFileModified_def handleFileDeleted_def fileChanged_def fileRemoved_def
      obj_put_def obj_set_def obj_delete_def insert_commute Let_def)

theorem batch_sets_net_effect_witness: "handleFilesystemEvents (drop 5) [''/cwd/dist''] ex_events [(''a'', \<lparr>mode = 420, ref_fsPath = ''/cwd/a''\<rparr>)]
   = Inr ([(''b'', \<lparr>mode = 420, ref_fsPath = ''/cwd/b''\<rparr>)], {''b''}, {''a'', ''c''}) \<and>
   {''b''} \<inter> {''a'', ''c''} = ({} :: string set) \<and>
   net_effect (drop 5) (outside_distPaths [''/cwd/dist''] ex_events) ''b'' = Some True \<and>
   net_effect (drop 5) (outside_distPaths [''/cwd/dist''] ex_events) ''a'' = Some False"
proof -
  from batch_sets_net_effect [OF ex_events_run]
  have "{''b''} \<inter> {''a'', ''c''} = ({} :: string set)"
    and "{''b''} = {n. net_effect (drop 5) (outside_distPaths [''/cwd/dist''] ex_events) n = Some True}"
    and "{''a'', ''c''} = {n. net_effect (drop 5) (outside_distPaths [''/cwd/dist''] ex_events) n = Some False}"
    by blast+
  with ex_events_run show ?thesis by blast
qed
subsection \<open>Environment files\<close>

lemma map_of_fold_delete:
  "map_of (fold (\<lambda>key m. if \<not> P key then obj_delete key m else m) ks obj) k =
     (if k \<in> set ks \<and> \<not> P k then None else map_of obj k)"
  by (induction ks arbitrary: obj) (auto simp: map_of_obj_delete)

lemma validateEnvConfig_accepts:
  "(\<exists>merged. validateEnvConfig type env localEnv = Inr merged) \<longleftrightarrow>
     missing_names env localEnv = []"
  by (auto simp: validateEnvConfig_def Let_def)

lemma validateEnvConfig_lookup:
  assumes "validateEnvConfig type env localEnv = Inr merged"
  shows "map_of merged k =
     (if env_name_test k then (map_of (rev env) ++ map_of (rev localEnv)) k else None)"
proof -
  let ?m = "spread2 env localEnv"
  from assms have merged:
    "merged = fold (\<lambda>key m. if \<not> env_name_test key then obj_delete key m else m) (map fst ?m) ?m"
    by (auto simp: validateEnvConfig_def Let_def split: if_splits)
  have "k \<notin> set (map fst ?m) \<Longrightarrow> map_of ?m k = None"
    by (simp add: map_of_eq_None_iff)
  then show ?thesis
    unfolding merged map_of_fold_delete
    by (auto simp: map_of_spread2)
qed

text \<open>
  Claim C7. When \<open>validateEnvConfig\<close> accepts a base object and a local object
  (no name of the base whose value is an \<open>@\<close> reference is missing from the local
  object), the result is the right-biased merge of the two restricted to the names that
  pass the test \<open>^[a-zA-Z][a-zA-Z0-9_]*$\<close>: a valid name defined by both takes the
  local value, and no name failing the test is in the result. The keys of a JavaScript
  object are distinct.
\<close>

theorem validateEnvConfig_merge:
  assumes "validateEnvConfig type env localEnv = Inr merged"
    and "distinct (map fst env)" and "distinct (map fst localEnv)"
  shows "missing_names env localEnv = [] \<and>
         (\<forall>k. obj_get merged k =
            (if env_name_test k
             then (case obj_get localEnv k of Some v \<Rightarrow> Some v | None \<Rightarrow> obj_get env k)
             else None)) \<and>
         (\<forall>k v. env_name_test k \<and> obj_get localEnv k = Some v \<longrightarrow> obj_get merged k = Some v) \<and>
         (\<forall>k. obj_get merged k \<noteq> None \<longrightarrow> env_name_test k)"
proof -
  have acc: "missing_names env localEnv = []"
    using assms(1) validateEnvConfig_accepts [of type env localEnv] by blast
  have look: "obj_get merged k =
            (if env_name_test k
             then (case obj_get localEnv k of Some v \<Rightarrow> Some v | None \<Rightarrow> obj_get env k)
             else None)" for k
    using validateEnvConfig_lookup [OF assms(1), of k] assms(2,3)
    by (simp add: obj_get_def map_of_rev_distinct map_add_def split: option.splits)
  from acc look show ?thesis by simp
qed

text \<open>
  The base object defines \<open>API_KEY\<close> as a reference, \<open>MODE\<close> and the invalid name
  \<open>1BAD\<close>; the local object defines \<open>API_KEY\<close>, \<open>MODE\<close> and the invalid name
  \<open>my-var\<close>. Without the local object the reference is missing.
\<close>

lemma ex_env_run:
  "validateEnvConfig ''.env'' ex_env ex_localEnv =
     Inr [(''API_KEY'', EnvString ''secret''), (''MODE'', EnvString ''prod'')]"
  by (simp add: validateEnvConfig_def missing_names_def ex_env_def ex_localEnv_def
      is_reference_def startsWith_def hasOwnProperty_def spread2_def obj_assign_def obj_set_def
      obj_delete_def env_name_test_def is_letter_def is_digit_def Let_def)

lemma ex_env_reject:
  "validateEnvConfig ''.env'' ex_env [] = Inl (MissingDotenvVarsError ''.env'' [''API_KEY''])"
  by (simp add: validateEnvConfig_def missing_names_def ex_env_def ex_localEnv_def
      is_reference_def startsWith_def hasOwnProperty_def Let_def)

theorem validateEnvConfig_merge_witness:
  "validateEnvConfig ''.env'' ex_env ex_localEnv =
     Inr [(''API_KEY'', EnvString ''secret''), (''MODE'', EnvString ''prod'')] \<and>
   distinct (map fst ex_env) \<and> distinct (map fst ex_localEnv) \<and>
   obj_get ex_env ''MODE'' = Some (EnvString ''dev'') \<and>
   obj_get ex_localEnv ''MODE'' = Some (EnvString ''prod'') \<and>
   obj_get [(''API_KEY'', EnvString ''secret''), (''MODE'', EnvString ''prod'')] ''MODE''
     = Some (EnvString ''prod'') \<and>
   obj_get ex_env ''1BAD'' = Some (EnvString ''x'') \<and> \<not> env_name_test ''1BAD'' \<and>
   obj_get [(''API_KEY'', EnvString ''secret''), (''MODE'', EnvString ''prod'')] ''1BAD'' = None \<and>
   missing_names ex_env ex_localEnv = []"
proof -
  have d: "distinct (map fst ex_env)" "distinct (map fst ex_localEnv)"
    by (simp_all add: ex_env_def ex_localEnv_def)
  have facts: "obj_get ex_env ''MODE'' = Some (EnvString ''dev'')"
    "obj_get ex_localEnv ''MODE'' = Some (EnvString ''prod'')"
    "obj_get ex_env ''1BAD'' = Some (EnvString ''x'')" "\<not> env_name_test ''1BAD''"
    by (simp_all add: ex_env_def ex_localEnv_def obj_get_def env_name_test_def is_letter_def)
  from validateEnvConfig_merge [OF ex_env_run d]
  have "missing_names ex_env ex_localEnv = []"
    and "obj_get [(''API_KEY'', EnvString ''secret''), (''MODE'', EnvString ''prod'')] ''MODE''
         = (if env_name_test ''MODE''
             then (case obj_get ex_localEnv ''MODE'' of Some v \<Rightarrow> Some v | None \<Rightarrow> obj_get ex_env ''MODE'')
             else None)"
    and "obj_get [(''API_KEY'', EnvString ''secret''), (''MODE'', EnvString ''prod'')] ''1BAD''
         = (if env_name_test ''1BAD''
             then (case obj_get ex_localEnv ''1BAD'' of Some v \<Rightarrow> Some v | None \<Rightarrow> obj_get ex_env ''1BAD'')
             else None)"
    by blast+
  with ex_env_run d facts show ?thesis
    by (simp add: env_name_test_def is_letter_def)
qed
subsection \<open>The build scheduler\<close>

lemma teardown_present:
  "buildOutput match \<noteq> None \<Longrightarrow>
     teardown prev match =
       Some (match\<lparr>buildOutput := Some
          (case prev of
             None \<Rightarrow> the (buildOutput match)
           | Some r \<Rightarrow> fold (\<lambda>(name, a) acc. obj_delete name acc) (br_output r)
                        (the (buildOutput match)))\<rparr>)"
  by (cases prev) (auto simp: teardown_def)

text \<open>
  A call that finds a promise under its key starts no build: it only adds an activation
  that waits for that promise.
\<close>

lemma triggerBuild_enter_dedupes:
  assumes "obj_get (inProgressBuilds s) (buildKey (matches s m) requestPath) = Some p"
  shows "triggerBuild_enter m requestPath prev now s =
           s\<lparr>calls := calls s @
                [\<lparr>tc_match = m, tc_requestPath = requestPath, tc_previous = prev,
                  tc_buildKey = buildKey (matches s m) requestPath,
                  tc_at = AwaitBuild (Some p)\<rparr>]\<rparr>"
  using assms by (simp add: triggerBuild_enter_def Let_def)

lemma triggerBuild_enter_builds: "builds (triggerBuild_enter m requestPath prev now s) = builds s"
  by (simp add: triggerBuild_enter_def Let_def)

text \<open>
  A call that is resumed after the promise it waits for has settled deletes its key
  from the map, whether the build resolved or rejected.
\<close>

lemma triggerBuild_finally_deletes:
  assumes "i < length (calls s)" and "tc_at (calls s ! i) = AwaitBuild buildPromise"
    and "settled s buildPromise"
  shows "obj_get (inProgressBuilds (triggerBuild_finally i s)) (tc_buildKey (calls s ! i)) = None"
  using assms by (simp add: triggerBuild_finally_def Let_def obj_get_obj_delete)

text \<open>
  Claim C1 asks for at most one build in progress for every key. The check of the map
  and the registration of the promise are separated by \<open>await this.getNowConfig()\<close>:
  a second call for the key that is entered while the first one waits there finds no
  promise in the map either. When the second call is resumed the map holds the promise
  of the first build (number 0), and it starts another build all the same: two builds
  of the key \<open>pages/**-api/x\<close> are in progress.
\<close>

theorem triggerBuild_two_builds_in_progress:
  "obj_get (inProgressBuilds (run_scheduler (take 3 ex_race) (init_scheduler (\<lambda>_. ex_match))))
     ''pages/**-api/x'' = Some 0 \<and>
   builds_in_progress ''pages/**-api/x''
     (run_scheduler ex_race (init_scheduler (\<lambda>_. ex_match))) =
     [\<lparr>bc_key = ''pages/**-api/x'', bc_match = 0, bc_requestPath = Some ''api/x'',
       bc_promise = Pending\<rparr>,
      \<lparr>bc_key = ''pages/**-api/x'', bc_match = 0, bc_requestPath = Some ''api/x'',
       bc_promise = Pending\<rparr>]"
  by (simp add: run_scheduler_def triggerBuild_enter_def triggerBuild_build_def
      init_scheduler_def teardown_def buildKey_def obj_get_def obj_set_def Let_def
      ex_race_def ex_match_def builds_in_progress_def)

text \<open>
  Claim C2, as amended. With no promise under the key in the map, \<open>triggerBuild\<close>
  skips the build exactly when the time since the \<open>buildTimestamp\<close> of the match is
  less than 2000 milliseconds, and otherwise goes on to build. For two triggers of a
  key, the first of which builds and returns: the second starts a second build exactly
  when it comes at least 2000 milliseconds after the \<open>buildTimestamp\<close> that the first
  build has set; 1900 milliseconds after that stamp there is one build, 2100
  milliseconds after it there are two.
\<close>

theorem triggerBuild_cooldown:
  "(obj_get (inProgressBuilds s) (buildKey (matches s m) requestPath) = None \<longrightarrow>
      triggerBuild_enter m requestPath prev now s =
        s\<lparr>calls := calls s @
             [\<lparr>tc_match = m, tc_requestPath = requestPath, tc_previous = prev,
               tc_buildKey = buildKey (matches s m) requestPath,
               tc_at = (if now - buildTimestamp (matches s m) < 2000 then AwaitBuild None
                        else AwaitNowConfig)\<rparr>]\<rparr>) \<and>
   (2000 \<le> t1 - buildTimestamp (ms m) \<and> buildOutput (ms m) \<noteq> None \<longrightarrow>
      length (builds (run_scheduler
         [Trigger m requestPath prev1 t1, NowConfigResolves 0, BuildSettles 0 True stamp,
          BuildAwaited 0, Trigger m requestPath prev2 t2, NowConfigResolves 1, BuildAwaited 1]
         (init_scheduler ms))) = (if t2 - stamp < 2000 then 1 else 2))"
proof -
  have decision: "triggerBuild_enter m requestPath prev now s =
        s\<lparr>calls := calls s @
             [\<lparr>tc_match = m, tc_requestPath = requestPath, tc_previous = prev,
               tc_buildKey = buildKey (matches s m) requestPath,
               tc_at = (if now - buildTimestamp (matches s m) < 2000 then AwaitBuild None
                        else AwaitNowConfig)\<rparr>]\<rparr>"
    if "obj_get (inProgressBuilds s) (buildKey (matches s m) requestPath) = None"
    using that by (simp add: triggerBuild_enter_def Let_def)
  have scenario: "length (builds (run_scheduler
         [Trigger m requestPath prev1 t1, NowConfigResolves 0, BuildSettles 0 True stamp,
          BuildAwaited 0, Trigger m requestPath prev2 t2, NowConfigResolves 1, BuildAwaited 1]
         (init_scheduler ms))) = (if t2 - stamp < 2000 then 1 else 2)"
    if "2000 \<le> t1 - buildTimestamp (ms m)" and "buildOutput (ms m) \<noteq> None"
    using that
    by (simp add: run_scheduler_def triggerBuild_enter_def triggerBuild_build_def
        executeBuild_settles_def triggerBuild_finally_def settled_def init_scheduler_def
        buildKey_def obj_get_def obj_set_def obj_delete_def Let_def teardown_present)
  from decision scenario show ?thesis by blast
qed

text \<open>
  The first build stamps the match at the time of the trigger, 10000: a second trigger
  1900 milliseconds later is skipped, one 2100 milliseconds later builds again.
\<close>

theorem triggerBuild_cooldown_witness:
  "2000 \<le> 10000 - buildTimestamp ex_match \<and> buildOutput ex_match \<noteq> None \<and>
   length (builds (run_scheduler (ex_cooldown 10000 11900) (init_scheduler (\<lambda>_. ex_match)))) = 1 \<and>
   length (builds (run_scheduler (ex_cooldown 10000 12100) (init_scheduler (\<lambda>_. ex_match)))) = 2"
proof -
  have h: "2000 \<le> 10000 - buildTimestamp ((\<lambda>_. ex_match) (0::nat)) \<and>
           buildOutput ((\<lambda>_. ex_match) (0::nat)) \<noteq> None"
    by (simp add: ex_match_def)
  from h triggerBuild_cooldown [of "init_scheduler (\<lambda>_. ex_match)" 0 "Some ''api/x''" None 10000
      10000 "\<lambda>_. ex_match" None 10000 None 11900]
  have a: "length (builds (run_scheduler (ex_cooldown 10000 11900)
              (init_scheduler (\<lambda>_. ex_match)))) = 1"
    by (simp add: ex_cooldown_def)
  from h triggerBuild_cooldown [of "init_scheduler (\<lambda>_. ex_match)" 0 "Some ''api/x''" None 10000
      10000 "\<lambda>_. ex_match" None 10000 None 12100]
  have b: "length (builds (run_scheduler (ex_cooldown 10000 12100)
              (init_scheduler (\<lambda>_. ex_match)))) = 2"
    by (simp add: ex_cooldown_def)
  from h a b show ?thesis by simp
qed

text \<open>
  Claim C2 as stated fails when the build takes time: the first trigger comes at 10000,
  its build stamps the match at 10500, and the second trigger comes at 12100, which is
  2100 milliseconds after the first trigger and 1600 after the stamp. It is skipped, and
  one build has been started.
\<close>

theorem triggerBuild_cooldown_counterexample:
  "length (builds (run_scheduler (ex_cooldown 10500 12100) (init_scheduler (\<lambda>_. ex_match)))) = 1"
  by (simp add: run_scheduler_def triggerBuild_enter_def triggerBuild_build_def
      executeBuild_settles_def triggerBuild_finally_def settled_def init_scheduler_def
      teardown_def buildKey_def obj_get_def obj_set_def obj_delete_def Let_def
      ex_cooldown_def ex_match_def)

subsection \<open>Cleaning the URL\<close>

lemma collapse_slashes_Nil_iff: "collapse_slashes p = [] \<longleftrightarrow> p = []"
  by (cases p) auto

lemma hd_collapse_slashes: "p \<noteq> [] \<Longrightarrow> hd (collapse_slashes p) = hd p"
  by (cases p) auto

lemma str_includes_double_slash_Cons:
  "str_includes (c # cs) ''//'' \<longleftrightarrow>
     (c = CHR ''/'' \<and> cs \<noteq> [] \<and> hd cs = CHR ''/'') \<or> str_includes cs ''//''"
  by (cases cs) auto

lemma collapse_slashes_no_double: "\<not> str_includes (collapse_slashes p) ''//''"
proof (induction p rule: collapse_slashes.induct)
  case 1
  then show ?case by simp
next
  case (2 c cs)
  show ?case
  proof (cases "c = CHR ''/''")
    case True
    let ?r = "dropWhile (\<lambda>d. d = CHR ''/'') cs"
    have "?r \<noteq> [] \<Longrightarrow> hd ?r \<noteq> CHR ''/''"
      using hd_dropWhile [of "\<lambda>d. d = CHR ''/''" cs] by simp
    then have "collapse_slashes ?r \<noteq> [] \<Longrightarrow> hd (collapse_slashes ?r) \<noteq> CHR ''/''"
      by (simp add: collapse_slashes_Nil_iff hd_collapse_slashes)
    with 2 True show ?thesis
      by (auto simp: str_includes_double_slash_Cons simp del: str_includes.simps)
  next
    case False
    with 2 show ?thesis
      by (simp add: str_includes_double_slash_Cons del: str_includes.simps)
  qed
qed

lemma collapse_slashes_keeps_others:
  "filter (\<lambda>c. c \<noteq> CHR ''/'') (collapse_slashes p) = filter (\<lambda>c. c \<noteq> CHR ''/'') p"
proof (induction p rule: collapse_slashes.induct)
  case 1
  then show ?case by simp
next
  case (2 c cs)
  have "filter (\<lambda>c. c \<noteq> CHR ''/'') (dropWhile (\<lambda>d. d = CHR ''/'') cs) = filter (\<lambda>c. c \<noteq> CHR ''/'') cs"
    by (induction cs) auto
  with 2 show ?case by auto
qed

lemma collapse_slashes_fixed:
  "\<not> str_includes p ''//'' \<Longrightarrow> collapse_slashes p = p"
proof (induction p rule: collapse_slashes.induct)
  case 1
  then show ?case by simp
next
  case (2 c cs)
  show ?case
  proof (cases "c = CHR ''/''")
    case True
    with "2.prems" have nd: "cs = [] \<or> hd cs \<noteq> CHR ''/''" and rest: "\<not> str_includes cs ''//''"
      by (auto simp: str_includes_double_slash_Cons simp del: str_includes.simps)
    from nd have "dropWhile (\<lambda>d. d = CHR ''/'') cs = cs"
      by (cases cs) auto
    with 2 True rest show ?thesis by simp
  next
    case False
    with 2 show ?thesis
      by (simp add: str_includes_double_slash_Cons del: str_includes.simps)
  qed
qed

lemma collapse_slashes_run:
  "collapse_slashes (a @ replicate (Suc n) CHR ''/'' @ b) = collapse_slashes (a @ CHR ''/'' # b)"
proof (induction a rule: collapse_slashes.induct)
  case 1
  have "dropWhile (\<lambda>d. d = CHR ''/'') (replicate n CHR ''/'' @ b) = dropWhile (\<lambda>d. d = CHR ''/'') b"
    by (induction n) auto
  then show ?case by simp
next
  case (2 c cs)
  show ?case
  proof (cases "c = CHR ''/''")
    case True
    let ?P = "\<lambda>d. d = CHR ''/''"
    show ?thesis
    proof (cases "list_all ?P cs")
      case True
      then have a: "dropWhile ?P (cs @ replicate (Suc n) CHR ''/'' @ b) = dropWhile ?P b"
        and b: "dropWhile ?P (cs @ CHR ''/'' # b) = dropWhile ?P b"
        by (induction cs) (auto, induction n, auto)
      from \<open>c = CHR ''/''\<close> a b show ?thesis by simp
    next
      case False
      then obtain x where "x \<in> set cs" "\<not> ?P x" by (auto simp: list_all_iff)
      then have a: "dropWhile ?P (cs @ replicate (Suc n) CHR ''/'' @ b)
                    = dropWhile ?P cs @ replicate (Suc n) CHR ''/'' @ b"
        and b: "dropWhile ?P (cs @ CHR ''/'' # b) = dropWhile ?P cs @ CHR ''/'' # b"
        by (auto simp: dropWhile_append1)
      from \<open>c = CHR ''/''\<close> 2 a b show ?thesis by simp
    qed
  next
    case False
    with 2 show ?thesis by simp
  qed
qed

subsection \<open>Response headers\<close>

lemma toLowerCase_lower:
  "toLowerCase ''x-now-id'' = ''x-now-id''" "toLowerCase ''x-now-cache'' = ''x-now-cache''"
  "toLowerCase ''content-type'' = ''content-type''" "toLowerCase ''location'' = ''location''"
  "toLowerCase ''Content-Type'' = ''content-type''" "toLowerCase ''Content-Length'' = ''content-length''"
  "toLowerCase ''cache-control'' = ''cache-control''" "toLowerCase ''server'' = ''server''"
  "toLowerCase ''x-now-trace'' = ''x-now-trace''" "toLowerCase ''Connection'' = ''connection''"
  by (simp_all add: toLowerCase_def)

lemma getHeader_setHeader:
  "getHeader name (setHeader name' v rs) =
     (if toLowerCase name = toLowerCase name' then Some v else getHeader name rs)"
  by (simp add: getHeader_def setHeader_def obj_get_obj_set)

lemma res_body_setHeader: "res_body (setHeader name v rs) = res_body rs"
  by (simp add: setHeader_def)

lemma res_statusCode_setHeader: "res_statusCode (setHeader name v rs) = res_statusCode rs"
  by (simp add: setHeader_def)

lemma getHeader_end_response: "getHeader name (end_response b rs) = getHeader name rs"
  by (simp add: getHeader_def end_response_def)

lemma res_statusCode_end_response: "res_statusCode (end_response b rs) = res_statusCode rs"
  by (simp add: end_response_def)

lemma res_body_end_response: "res_body (end_response b rs) = Some b"
  by (simp add: end_response_def)

lemma fold_setHeader_body:
  "res_body (fold (\<lambda>(name, v) r. setHeader name v r) hs rs) = res_body rs"
  by (induction hs arbitrary: rs) (auto simp: res_body_setHeader)

lemma fold_setHeader_status:
  "res_statusCode (fold (\<lambda>(name, v) r. setHeader name v r) hs rs) = res_statusCode rs"
  by (induction hs arbitrary: rs) (auto simp: res_statusCode_setHeader)

lemma getHeader_fold_setHeader:
  "getHeader name (fold (\<lambda>(n, v) r. setHeader n v r) hs rs) =
     (case map_of (rev (map (\<lambda>(n, v). (toLowerCase n, v)) hs)) (toLowerCase name) of
        Some v \<Rightarrow> Some v
      | None \<Rightarrow> getHeader name rs)"
proof (induction hs arbitrary: rs)
  case Nil
  then show ?case by simp
next
  case (Cons h hs)
  obtain n v where h: "h = (n, v)" by (cases h)
  show ?case
    by (simp add: h Cons.IH getHeader_setHeader map_add_def split: option.splits)
qed

lemma setHeaders_Inr:
  "setHeaders throws hs rs = Inr rs' \<Longrightarrow> rs' = fold (\<lambda>(name, v) r. setHeader name v r) hs rs"
proof (induction hs arbitrary: rs)
  case Nil
  then show ?case by simp
next
  case (Cons h hs)
  obtain name v where h: "h = (name, v)" by (cases h)
  from Cons.prems have "setHeaders throws hs (setHeader name v rs) = Inr rs'"
    by (simp add: h split: option.splits)
  from Cons.IH [OF this] show ?case by (simp add: h)
qed

lemma setHeaders_accepted:
  "setHeaders (\<lambda>name v. None) hs rs = Inr (fold (\<lambda>(name, v) r. setHeader name v r) hs rs)"
  by (induction hs arbitrary: rs) auto

lemma res_body_setResponseHeaders: "res_body (setResponseHeaders nowRequestId hs rs) = res_body rs"
  by (simp add: setResponseHeaders_def allHeaders_def fold_setHeader_body)

lemma res_statusCode_setResponseHeaders:
  "res_statusCode (setResponseHeaders nowRequestId hs rs) = res_statusCode rs"
  by (simp add: setResponseHeaders_def allHeaders_def fold_setHeader_status)

lemma keys_obj_set: "fst ` set (obj_set k v obj) = insert k (fst ` set obj)"
proof (cases "map_of obj k")
  case None
  then show ?thesis by (simp add: obj_set_def)
next
  case (Some a)
  then have "k \<in> fst ` set obj" by (force dest: map_of_SomeD)
  moreover have "fst ` set (map (\<lambda>(k', v'). if k' = k then (k', v) else (k', v')) obj) = fst ` set obj"
    by (induction obj) auto
  ultimately show ?thesis using Some by (auto simp: obj_set_def)
qed

lemma keys_list_obj_set:
  "map fst (obj_set k v obj) = (if k \<in> fst ` set obj then map fst obj else map fst obj @ [k])"
proof -
  have "map fst (map (\<lambda>(k', v'). if k' = k then (k', v) else (k', v')) obj) = map fst obj"
    by (induction obj) auto
  then show ?thesis
    by (auto simp: obj_set_def map_of_eq_None_iff)
qed

lemma distinct_obj_set: "distinct (map fst obj) \<Longrightarrow> distinct (map fst (obj_set k v obj))"
  by (auto simp: keys_list_obj_set)

lemma distinct_obj_assign:
  "distinct (map fst target) \<Longrightarrow> distinct (map fst (obj_assign target source))"
proof (induction source arbitrary: target)
  case Nil
  then show ?case by (simp add: obj_assign_def)
next
  case (Cons kv source)
  obtain k v where kv: "kv = (k, v)" by (cases kv)
  have "obj_assign target (kv # source) = obj_assign (obj_set k v target) source"
    by (simp add: obj_assign_def kv)
  with Cons.IH [of "obj_set k v target"] Cons.prems show ?case
    by (simp add: distinct_obj_set)
qed

lemma respells_id_absent: "''x-now-id'' \<notin> fst ` set obj \<Longrightarrow> \<not> respells_id obj"
proof -
  assume "''x-now-id'' \<notin> fst ` set obj"
  then have e: "dropWhile (\<lambda>name. name \<noteq> ''x-now-id'') (map fst obj) = []"
    by (force simp: dropWhile_eq_Nil_conv)
  show ?thesis unfolding respells_id_def e by simp
qed

lemma respells_id_none:
  assumes "\<not> list_ex (\<lambda>name. name \<noteq> ''x-now-id'' \<and> toLowerCase name = ''x-now-id'') (map fst obj)"
  shows "\<not> respells_id obj"
proof
  assume "respells_id obj"
  then obtain n where n: "n \<in> set (dropWhile (\<lambda>name. name \<noteq> ''x-now-id'') (map fst obj))"
    and q: "n \<noteq> ''x-now-id''" "toLowerCase n = ''x-now-id''"
    unfolding respells_id_def list_ex_iff by blast
  from n have "n \<in> set (map fst obj)" by (rule set_dropWhileD)
  with q assms show False unfolding list_ex_iff by blast
qed

lemma respells_id_obj_set:
  assumes "\<not> respells_id obj" and "k = ''x-now-id'' \<or> toLowerCase k \<noteq> ''x-now-id''"
  shows "\<not> respells_id (obj_set k v obj)"
proof (cases "k \<in> fst ` set obj")
  case True
  with assms show ?thesis by (simp add: respells_id_def keys_list_obj_set)
next
  case False
  show ?thesis
  proof (cases "''x-now-id'' \<in> fst ` set obj")
    case True
    then have "dropWhile (\<lambda>name. name \<noteq> ''x-now-id'') (map fst obj @ [k]) =
                 dropWhile (\<lambda>name. name \<noteq> ''x-now-id'') (map fst obj) @ [k]"
      by (intro dropWhile_append1 [of "''x-now-id''"]) auto
    with assms False show ?thesis
      by (auto simp: respells_id_def keys_list_obj_set)
  next
    case no: False
    show ?thesis
    proof (cases "k = ''x-now-id''")
      case True
      with no have "dropWhile (\<lambda>name. name \<noteq> ''x-now-id'') (map fst obj @ [k]) = [k]"
        by (subst dropWhile_append2) force+
      with True False show ?thesis
        by (simp add: respells_id_def keys_list_obj_set)
    next
      case False
      with no have "''x-now-id'' \<notin> fst ` set (obj_set k v obj)"
        by (simp add: keys_obj_set)
      then show ?thesis by (rule respells_id_absent)
    qed
  qed
qed

lemma respells_id_obj_assign:
  assumes "\<not> respells_id hs" and "\<not> respells_id target"
    and "''x-now-id'' \<in> fst ` set target \<longrightarrow>
           \<not> list_ex (\<lambda>name. name \<noteq> ''x-now-id'' \<and> toLowerCase name = ''x-now-id'') (map fst hs)"
  shows "\<not> respells_id (obj_assign target hs)"
  using assms
proof (induction hs arbitrary: target)
  case Nil
  then show ?case by (simp add: obj_assign_def)
next
  case (Cons kv hs)
  let ?q = "\<lambda>name. name \<noteq> ''x-now-id'' \<and> toLowerCase name = ''x-now-id''"
  obtain k v where kv: "kv = (k, v)" by (cases kv)
  have step: "obj_assign target (kv # hs) = obj_assign (obj_set k v target) hs"
    by (simp add: obj_assign_def kv)
  show ?case
  proof (cases "''x-now-id'' \<in> fst ` set target \<or> k = ''x-now-id''")
    case True
    with Cons.prems have noq: "\<not> list_ex ?q (map fst hs)" and k: "k = ''x-now-id'' \<or> \<not> ?q k"
      by (auto simp: kv respells_id_def)
    from noq have a: "\<not> respells_id hs" by (rule respells_id_none)
    from Cons.prems(2) k have b: "\<not> respells_id (obj_set k v target)"
      by (intro respells_id_obj_set) auto
    from Cons.IH [OF a b] noq show ?thesis by (simp add: step)
  next
    case False
    with Cons.prems(1) have a: "\<not> respells_id hs"
      by (simp add: kv respells_id_def)
    from False have no: "''x-now-id'' \<notin> fst ` set (obj_set k v target)"
      by (auto simp: keys_obj_set)
    then have b: "\<not> respells_id (obj_set k v target)" by (rule respells_id_absent)
    from Cons.IH [OF a b] no show ?thesis by (simp add: step)
  qed
qed

lemma map_of_lower_id:
  assumes "distinct (map fst A)" and "''x-now-id'' \<in> fst ` set A" and "\<not> respells_id A"
  shows "map_of (rev (map (\<lambda>(n, v). (toLowerCase n, v)) A)) ''x-now-id'' = map_of A ''x-now-id''"
  using assms
proof (induction A)
  case Nil
  then show ?case by simp
next
  case (Cons kv A)
  obtain k v where kv: "kv = (k, v)" by (cases kv)
  show ?case
  proof (cases "k = ''x-now-id''")
    case True
    with Cons.prems have "''x-now-id'' \<notin> set (map fst A)"
      and "\<forall>n \<in> set (map fst A). n = ''x-now-id'' \<or> toLowerCase n \<noteq> ''x-now-id''"
      unfolding kv respells_id_def list_ex_iff by simp_all
    then have noq: "\<forall>n \<in> fst ` set A. toLowerCase n \<noteq> ''x-now-id''"
      by force
    then have "map_of (rev (map (\<lambda>(n, v). (toLowerCase n, v)) A)) ''x-now-id'' = None"
      by (force simp: map_of_eq_None_iff)
    with True show ?thesis
      by (simp add: kv map_add_def toLowerCase_lower)
  next
    case False
    with Cons.prems have "''x-now-id'' \<in> fst ` set A" and "\<not> respells_id A" and "distinct (map fst A)"
      by (auto simp: kv respells_id_def)
    with Cons.IH have IH: "map_of (rev (map (\<lambda>(n, v). (toLowerCase n, v)) A)) ''x-now-id'' =
        map_of A ''x-now-id''" by simp
    from \<open>''x-now-id'' \<in> fst ` set A\<close> obtain w where "map_of A ''x-now-id'' = Some w"
      by (cases "map_of A ''x-now-id''") (auto simp: map_of_eq_None_iff)
    with IH False show ?thesis
      by (simp add: kv map_add_def)
  qed
qed

text \<open>
  \<open>setResponseHeaders\<close> leaves the identifier of the request in the header
  \<open>x-now-id\<close> unless the given headers have, after the key \<open>x-now-id\<close>, a key
  that is another spelling of the name.
\<close>

lemma getHeader_setResponseHeaders_respelled:
  assumes "\<not> respells_id hs"
  shows "getHeader ''x-now-id'' (setResponseHeaders nowRequestId hs rs) = Some nowRequestId"
proof -
  let ?H = "obj_assign [(''cache-control'', ''public, max-age=0, must-revalidate'')] hs"
  let ?A = "obj_set ''x-now-cache'' ''MISS'' (obj_set ''x-now-id'' nowRequestId
              (obj_set ''x-now-trace'' ''dev1'' (obj_set ''server'' ''now'' ?H)))"
  have all: "obj_assign ?H [(''server'', ''now''), (''x-now-trace'', ''dev1''),
               (''x-now-id'', nowRequestId), (''x-now-cache'', ''MISS'')] = ?A"
    by (simp add: obj_assign_def)
  have "\<not> respells_id [(''cache-control'', ''public, max-age=0, must-revalidate'')]"
    by (simp add: respells_id_def)
  with assms have H: "\<not> respells_id ?H"
    by (intro respells_id_obj_assign) simp_all
  have dH: "distinct (map fst ?H)"
    by (intro distinct_obj_assign) simp
  have d: "distinct (map fst ?A)"
    by (intro distinct_obj_set dH)
  have r: "\<not> respells_id ?A"
    by (intro respells_id_obj_set H) (simp_all add: toLowerCase_lower)
  have i: "''x-now-id'' \<in> fst ` set ?A"
    by (simp add: keys_obj_set)
  have v: "map_of ?A ''x-now-id'' = Some nowRequestId"
    by (simp add: map_of_obj_set)
  from map_of_lower_id [OF d i r] v
  have "map_of (rev (map (\<lambda>(n, v). (toLowerCase n, v)) ?A)) ''x-now-id'' = Some nowRequestId"
    by simp
  then show ?thesis
    by (simp add: setResponseHeaders_def allHeaders_def all getHeader_fold_setHeader toLowerCase_lower Let_def
        del: obj_assign_def)
qed

lemma getHeader_setResponseHeaders_id:
  assumes "''x-now-id'' \<notin> fst ` set hs"
  shows "getHeader ''x-now-id'' (setResponseHeaders nowRequestId hs rs) = Some nowRequestId"
  using assms by (intro getHeader_setResponseHeaders_respelled respells_id_absent)

lemma getHeader_sendError_id:
  "getHeader ''x-now-id'' (sendError rq nowRequestId code status rs) = Some nowRequestId"
  by (simp add: sendError_def Let_def getHeader_end_response getHeader_setHeader toLowerCase_lower
      getHeader_setResponseHeaders_id)

lemma getHeader_sendRedirect_id:
  "getHeader ''x-now-id'' (sendRedirect rq nowRequestId location status rs) = Some nowRequestId"
  by (simp add: sendRedirect_def Let_def getHeader_end_response getHeader_setHeader toLowerCase_lower
      getHeader_setResponseHeaders_id)

lemma getHeader_sendRedirect_location:
  "getHeader ''location'' (sendRedirect rq nowRequestId location status rs) = Some location"
  by (simp add: sendRedirect_def Let_def getHeader_end_response getHeader_setHeader toLowerCase_lower
      setResponseHeaders_def allHeaders_def obj_assign_def obj_set_def)

lemma res_statusCode_sendRedirect:
  "res_statusCode (sendRedirect rq nowRequestId location status rs) = status"
  by (simp add: sendRedirect_def Let_def res_statusCode_end_response res_statusCode_setHeader
      res_statusCode_setResponseHeaders)

lemma res_body_sendRedirect:
  "res_body (sendRedirect rq nowRequestId location status rs) =
     Some (RedirectBody (negotiate rq) location status)"
  by (simp add: sendRedirect_def Let_def res_body_end_response)

lemma res_statusCode_sendError:
  "res_statusCode (sendError rq nowRequestId code status rs) = status"
  by (simp add: sendError_def Let_def res_statusCode_end_response res_statusCode_setHeader
      res_statusCode_setResponseHeaders)

lemma res_body_sendError:
  "res_body (sendError rq nowRequestId code status rs) = Some (ErrorBody (negotiate rq) status code)"
  by (simp add: sendError_def Let_def res_body_end_response)

lemma getHeader_directory_response_id:
  "getHeader ''x-now-id'' (directory_response nowRequestId html rs) = Some nowRequestId"
  by (simp add: directory_response_def getHeader_end_response getHeader_setHeader toLowerCase_lower
      getHeader_setResponseHeaders_id)

subsection \<open>Request identifiers\<close>

lemma digit_char_digit: "k < 10 \<Longrightarrow> is_digit (digit_char k)"
proof -
  assume "k < 10"
  then have "k = 0 \<or> k = 1 \<or> k = 2 \<or> k = 3 \<or> k = 4 \<or> k = 5 \<or> k = 6 \<or> k = 7 \<or> k = 8 \<or> k = 9"
    by arith
  then show ?thesis
    by (elim disjE) (simp_all add: digit_char_def is_digit_def)
qed

lemma digit_char_hex: "k < 16 \<Longrightarrow> is_hex (digit_char k)"
proof -
  assume "k < 16"
  then have "k = 0 \<or> k = 1 \<or> k = 2 \<or> k = 3 \<or> k = 4 \<or> k = 5 \<or> k = 6 \<or> k = 7 \<or>
             k = 8 \<or> k = 9 \<or> k = 10 \<or> k = 11 \<or> k = 12 \<or> k = 13 \<or> k = 14 \<or> k = 15"
    by arith
  then show ?thesis
    by (elim disjE) (simp_all add: digit_char_def is_hex_def)
qed

lemma show_nat_digits: "show_nat n \<noteq> [] \<and> list_all is_digit (show_nat n)"
proof (induction n rule: show_nat.induct)
  case (1 n)
  show ?case
  proof (cases "n < 10")
    case True
    then show ?thesis
      by (subst (1 2) show_nat.simps) (simp add: digit_char_digit)
  next
    case False
    with 1 show ?thesis
      by (subst (1 2) show_nat.simps) (simp add: digit_char_digit)
  qed
qed

lemma toString_hex_hex: "length (toString_hex bytes) = 2 * length bytes \<and> list_all is_hex (toString_hex bytes)"
  by (induction bytes) (simp_all add: toString_hex_def hex_byte_def digit_char_hex)

lemma generateRequestId_pattern:
  assumes "0 \<le> now" and "length randomBytes6 = 6"
    and "length podId = 5" and "list_all is_lower_alnum podId"
  shows "request_id_pattern (generateRequestId podId now randomBytes6)"
proof -
  have ms: "number_toString now \<noteq> [] \<and> list_all is_digit (number_toString now)"
    using assms(1) show_nat_digits [of "nat now"] by (simp add: number_toString_def)
  have hex: "length (toString_hex randomBytes6) = 12 \<and> list_all is_hex (toString_hex randomBytes6)"
    using toString_hex_hex [of randomBytes6] assms(2) by simp
  have "generateRequestId podId now randomBytes6 =
          ''dev1:'' @ podId @ ''-'' @ number_toString now @ ''-'' @ toString_hex randomBytes6"
    by (simp add: generateRequestId_def)
  with ms hex assms(3,4) show ?thesis
    unfolding request_id_pattern_def by blast
qed

lemma not_digit_dash: "\<not> is_digit CHR ''-''"
  by (simp add: is_digit_def)

lemma matches_request_id_iff: "matches_request_id s \<longleftrightarrow> request_id_pattern s"
proof
  assume "request_id_pattern s"
  then obtain pod ms hex where s: "s = ''dev1:'' @ pod @ ''-'' @ ms @ ''-'' @ hex"
    and pod: "length pod = 5" "list_all is_lower_alnum pod"
    and ms: "ms \<noteq> []" "list_all is_digit ms"
    and hex: "length hex = 12" "list_all is_hex hex"
    unfolding request_id_pattern_def by blast
  have tw: "takeWhile is_digit (ms @ CHR ''-'' # hex) = ms"
    using ms(2) not_digit_dash by (simp add: takeWhile_append2 list_all_iff)
  have dw: "dropWhile is_digit (ms @ CHR ''-'' # hex) = CHR ''-'' # hex"
    using ms(2) not_digit_dash by (simp add: dropWhile_append2 list_all_iff)
  show "matches_request_id s"
    unfolding matches_request_id_def s
    using pod ms hex by (simp add: tw dw)
next
  assume m: "matches_request_id s"
  then obtain r0 where s0: "s = ''dev1:'' @ r0"
    by (auto simp: matches_request_id_def prefix_def)
  let ?pod = "take 5 r0"
  from m have pod: "length ?pod = 5" "list_all is_lower_alnum ?pod"
    by (simp_all add: matches_request_id_def s0 Let_def)
  from m obtain r1 where r1: "drop 5 r0 = CHR ''-'' # r1"
    by (auto simp: matches_request_id_def s0 Let_def split: list.splits)
  let ?ms = "takeWhile is_digit r1"
  from m r1 have ms: "?ms \<noteq> []"
    by (auto simp: matches_request_id_def s0 Let_def split: list.splits)
  from m r1 obtain hex where r2: "dropWhile is_digit r1 = CHR ''-'' # hex"
    and hex: "length hex = 12" "list_all is_hex hex"
    by (auto simp: matches_request_id_def s0 Let_def split: list.splits)
  have "r0 = ?pod @ drop 5 r0" by simp
  also have "\<dots> = ?pod @ ''-'' @ r1" by (simp add: r1)
  also have "r1 = ?ms @ dropWhile is_digit r1" by simp
  finally have "s = ''dev1:'' @ ?pod @ ''-'' @ ?ms @ ''-'' @ hex"
    by (simp add: s0 r2)
  moreover have "list_all is_digit ?ms"
    by (simp add: list_all_iff) (meson set_takeWhileD)
  ultimately show "request_id_pattern s"
    unfolding request_id_pattern_def using pod ms hex by blast
qed

lemma is_base32_alnum: "is_base32 c \<Longrightarrow> is_lower_alnum c"
  by (auto simp: is_base32_def is_lower_alnum_def)

lemma podId_of_random:
  assumes "random32 = ''0.'' @ ds" and "5 \<le> length ds" and "list_all is_base32 ds"
  shows "length (podId_of random32) = 5 \<and> list_all is_lower_alnum (podId_of random32)"
proof -
  from assms(2) have "length ds - 3 = Suc (Suc (length ds - 5))" by arith
  then have "podId_of random32 = drop (length ds - 5) ds"
    using assms(1) by (simp add: podId_of_def)
  moreover have "set (drop (length ds - 5) ds) \<subseteq> set ds" by (rule set_drop_subset)
  ultimately show ?thesis
    using assms(2,3) by (auto simp: list_all_iff is_base32_alnum)
qed

subsection \<open>The request dispatcher\<close>

lemma conn_of_simps: "conn_of (Inr c) = c" "conn_of (Inl (err, c)) = c"
  by (simp_all add: conn_of_def)

lemma route_request_Matched:
  assumes "route_request env nowRequestId rts c = Matched m c1"
  shows "triggered c1 = triggered c" and "req c1 = req c"
    and "res_body (res c1) = res_body (res c)"
    and "m_status m = rr_status (devRouter env (req_url (req c)) (req_method (req c)) rts
                        (hasFilesystem (refreshBuildMatches env (buildMatches c))))"
    and "truthy (m_status m) \<Longrightarrow> m_status m = Some (res_statusCode (res c1))"
  using assms
  by (auto simp: route_request_def Let_def truthy_def fold_setHeader_body
      dest!: setHeaders_Inr split: sum.splits prod.splits option.splits if_splits)

lemma route_request_Matched_proxied:
  assumes "route_request env nowRequestId rts c = Matched m c1"
  shows "proxied c1 = proxied c"
  using assms
  by (auto simp: route_request_def Let_def split: sum.splits prod.splits option.splits if_splits)

text \<open>
  A destination that is a URL is proxied: the response gets the headers of the server,
  the identifier of the request among them, and is handed to \<open>proxyPass\<close>.
\<close>

lemma route_request_proxy:
  assumes "isURL env (rr_dest (devRouter env (req_url (req c)) (req_method (req c)) rts
                        (hasFilesystem (refreshBuildMatches env (buildMatches c)))))"
    and "route_request env nowRequestId rts c = Responded (Inr c')"
  shows "\<exists>rs dest. req c' = req c \<and> triggered c' = triggered c \<and>
           proxied c' = proxied c @ [(rs, dest)] \<and>
           getHeader ''x-now-id'' rs = Some nowRequestId \<and>
           res c' = proxyPass env (req c') rs dest"
  using assms
  by (auto simp: route_request_def Let_def getHeader_setResponseHeaders_id
      split: sum.splits prod.splits)

lemma route_request_Responded:
  assumes "route_request env nowRequestId rts c = Responded r"
  shows "triggered (conn_of r) = triggered c"
    and "r = Inr c' \<Longrightarrow>
           (proxied c' = proxied c \<and> getHeader ''x-now-id'' (res c') = Some nowRequestId) \<or>
           (\<exists>rs dest. proxied c' = proxied c @ [(rs, dest)] \<and>
              getHeader ''x-now-id'' rs = Some nowRequestId \<and>
              res c' = proxyPass env (req c') rs dest)"
proof -
  let ?url = "isURL env (rr_dest (devRouter env (req_url (req c)) (req_method (req c)) rts
                        (hasFilesystem (refreshBuildMatches env (buildMatches c)))))"
  from assms show "triggered (conn_of r) = triggered c"
    by (auto simp: route_request_def Let_def conn_of_simps
        split: sum.splits prod.splits option.splits if_splits)
  assume r: "r = Inr c'"
  show "(proxied c' = proxied c \<and> getHeader ''x-now-id'' (res c') = Some nowRequestId) \<or>
           (\<exists>rs dest. proxied c' = proxied c @ [(rs, dest)] \<and>
              getHeader ''x-now-id'' rs = Some nowRequestId \<and>
              res c' = proxyPass env (req c') rs dest)"
  proof (cases ?url)
    case True
    from assms r have "route_request env nowRequestId rts c = Responded (Inr c')" by simp
    from route_request_proxy [OF True this] show ?thesis by blast
  next
    case False
    with assms r have "proxied c' = proxied c \<and> getHeader ''x-now-id'' (res c') = Some nowRequestId"
      by (auto simp: route_request_def Let_def send404_def
          getHeader_sendError_id getHeader_sendRedirect_id getHeader_directory_response_id
          split: sum.splits prod.splits option.splits if_splits)
    then show ?thesis by simp
  qed
qed

lemma invokeLambda_triggered:
  "triggered (conn_of (invokeLambda env nowRequestId status uri_args fn c)) = triggered c"
  by (auto simp: invokeLambda_def Let_def conn_of_simps
      split: option.splits sum.splits prod.splits)

lemma invokeLambda_proxied:
  "proxied (conn_of (invokeLambda env nowRequestId status uri_args fn c)) = proxied c"
  by (auto simp: invokeLambda_def Let_def conn_of_simps
      split: option.splits sum.splits prod.splits)

lemma setHeaders_allHeaders:
  "setHeaders throws (allHeaders nowRequestId hs) rs = Inr rs' \<Longrightarrow>
     rs' = setResponseHeaders nowRequestId hs rs"
  by (simp add: setResponseHeaders_def setHeaders_Inr)

lemma invokeLambda_id:
  assumes "invokeLambda env nowRequestId status uri_args fn c = Inr c'"
  shows "getHeader ''x-now-id'' (res c') = Some nowRequestId \<or> function_respells_id (res c')"
  using assms
  by (auto simp: invokeLambda_def Let_def function_respells_id_def res_body_end_response
      getHeader_sendError_id getHeader_end_response getHeader_setResponseHeaders_respelled
      dest!: setHeaders_allHeaders split: option.splits sum.splits prod.splits)


lemma serve_found_triggered:
  "triggered (conn_of (serve_found env nowRequestId m foundAsset c)) = triggered c"
  by (auto simp: serve_found_def conn_of_simps invokeLambda_triggered
      split: option.splits BuilderOutput.splits)

lemma serve_found_proxied:
  "proxied (conn_of (serve_found env nowRequestId m foundAsset c)) = proxied c"
  by (auto simp: serve_found_def conn_of_simps invokeLambda_proxied
      split: option.splits BuilderOutput.splits)

lemma serve_found_id:
  assumes "serve_found env nowRequestId m foundAsset c = Inr c'"
  shows "getHeader ''x-now-id'' (res c') = Some nowRequestId \<or> function_respells_id (res c')"
  using assms
  by (auto simp: serve_found_def send404_def getHeader_sendError_id getHeader_end_response
      getHeader_setResponseHeaders_id dest: invokeLambda_id
      split: option.splits BuilderOutput.splits)


lemma serve_routed_descends:
  assumes "route_request env nowRequestId rts c = Matched m c1"
    and "m_subroute m = Some (newUrl, rts')"
  shows "serve_routed env nowRequestId rts 0 c =
           serveProjectAsNowV2 env nowRequestId rts' 1 (c1\<lparr>req := (req c1)\<lparr>req_url := Some newUrl\<rparr>\<rparr>)"
  using assms
  by (simp add: serve_routed.simps [of env nowRequestId rts 0 c] serveProjectAsNowV2_def
      split: sum.splits)

text \<open>
  Claim C5. When the path name of the URL of a request contains a double slash, the
  dispatcher makes the location from the path name with every run of slashes collapsed
  to one slash (no double slash is left and the other characters are kept) followed by
  the query string. For the method \<open>GET\<close> it answers with the status 301 and this
  location in the \<open>location\<close> header and does nothing else; for every other method
  it puts the location in the URL of the request and goes on with routing.
\<close>

theorem url_cleanup:
  assumes "url_parse env (url_or_slash (req c)) = (Some pathname, search)"
    and "str_includes pathname ''//''"
  shows "\<not> str_includes (collapse_slashes pathname) ''//'' \<and>
         filter (\<lambda>x. x \<noteq> CHR ''/'') (collapse_slashes pathname) = filter (\<lambda>x. x \<noteq> CHR ''/'') pathname \<and>
         cleanUrl env (req c) = Some (collapse_slashes pathname @ (case search of None \<Rightarrow> [] | Some q \<Rightarrow> q)) \<and>
         (req_method (req c) = Some ''GET'' \<longrightarrow>
            (\<exists>c'. serveProjectAsNowV2 env nowRequestId rts callLevel c = Inr c' \<and>
                  res_statusCode (res c') = 301 \<and>
                  getHeader ''location'' (res c') =
                    Some (collapse_slashes pathname @ (case search of None \<Rightarrow> [] | Some q \<Rightarrow> q)) \<and>
                  res_body (res c') =
                    Some (RedirectBody (negotiate (req c))
                      (collapse_slashes pathname @ (case search of None \<Rightarrow> [] | Some q \<Rightarrow> q)) 301) \<and>
                  req c' = req c \<and> triggered c' = triggered c)) \<and>
         (req_method (req c) \<noteq> Some ''GET'' \<longrightarrow>
            serveProjectAsNowV2 env nowRequestId rts callLevel c =
              serve_routed env nowRequestId rts callLevel
                (c\<lparr>req := (req c)\<lparr>req_url :=
                   Some (collapse_slashes pathname @ (case search of None \<Rightarrow> [] | Some q \<Rightarrow> q))\<rparr>\<rparr>))"
proof -
  let ?location = "collapse_slashes pathname @ (case search of None \<Rightarrow> [] | Some q \<Rightarrow> q)"
  have clean: "cleanUrl env (req c) = Some ?location"
    using assms by (simp add: cleanUrl_def)
  have get: "serveProjectAsNowV2 env nowRequestId rts callLevel c =
      Inr (c\<lparr>res := sendRedirect (req c) nowRequestId ?location 301 (res c)\<rparr>)"
    if "req_method (req c) = Some ''GET''"
    using that clean by (simp add: serveProjectAsNowV2_def normalize_url_def)
  have other: "serveProjectAsNowV2 env nowRequestId rts callLevel c =
      serve_routed env nowRequestId rts callLevel (c\<lparr>req := (req c)\<lparr>req_url := Some ?location\<rparr>\<rparr>)"
    if "req_method (req c) \<noteq> Some ''GET''"
    using that clean by (simp add: serveProjectAsNowV2_def normalize_url_def)
  from clean get other show ?thesis
    by (simp add: collapse_slashes_no_double collapse_slashes_keeps_others
        res_statusCode_sendRedirect getHeader_sendRedirect_location res_body_sendRedirect)
qed

text \<open>
  \<open>GET //a//b?x=1//2\<close> is redirected to \<open>/a/b?x=1//2\<close>; \<open>POST\<close> of the
  same URL is served as \<open>POST /a/b?x=1//2\<close>.
\<close>

theorem url_cleanup_witness:
  "url_parse (ex_dev_env None (\<lambda>m p. Inr m)) (url_or_slash (req (ex_conn ''GET'' ''//a//b?x=1//2'' [] [])))
     = (Some ''//a//b'', Some ''?x=1//2'') \<and>
   str_includes ''//a//b'' ''//'' \<and>
   collapse_slashes ''//a//b'' = ''/a/b'' \<and>
   req_method (req (ex_conn ''GET'' ''//a//b?x=1//2'' [] [])) = Some ''GET'' \<and>
   req_method (req (ex_conn ''POST'' ''//a//b?x=1//2'' [] [])) \<noteq> Some ''GET'' \<and>
   (\<exists>c'. serveProjectAsNowV2 (ex_dev_env None (\<lambda>m p. Inr m)) ''dev1:id'' None 0
           (ex_conn ''GET'' ''//a//b?x=1//2'' [] []) = Inr c' \<and>
         res_statusCode (res c') = 301 \<and>
         getHeader ''location'' (res c') = Some ''/a/b?x=1//2'') \<and>
   serveProjectAsNowV2 (ex_dev_env None (\<lambda>m p. Inr m)) ''dev1:id'' None 0
       (ex_conn ''POST'' ''//a//b?x=1//2'' [] []) =
     serve_routed (ex_dev_env None (\<lambda>m p. Inr m)) ''dev1:id'' None 0
       (ex_conn ''POST'' ''/a/b?x=1//2'' [] [])"
proof -
  let ?env = "ex_dev_env None (\<lambda>m p. Inr m) :: unit dev_env"
  have p1: "url_parse ?env (url_or_slash (req (ex_conn ''GET'' ''//a//b?x=1//2'' [] [])))
              = (Some ''//a//b'', Some ''?x=1//2'')"
    by (simp add: ex_dev_env_def ex_conn_def ex_url_parse_def url_or_slash_def Let_def)
  have p2: "url_parse ?env (url_or_slash (req (ex_conn ''POST'' ''//a//b?x=1//2'' [] [])))
              = (Some ''//a//b'', Some ''?x=1//2'')"
    by (simp add: ex_dev_env_def ex_conn_def ex_url_parse_def url_or_slash_def Let_def)
  have inc: "str_includes ''//a//b'' ''//''" by simp
  have col: "collapse_slashes ''//a//b'' = ''/a/b''" by simp
  have g: "req_method (req (ex_conn ''GET'' ''//a//b?x=1//2'' [] [])) = Some ''GET''"
    and ng: "req_method (req (ex_conn ''POST'' ''//a//b?x=1//2'' [] [])) \<noteq> Some ''GET''"
    by (simp_all add: ex_conn_def)
  have rew: "(ex_conn ''POST'' ''//a//b?x=1//2'' [] [])\<lparr>req :=
        (req (ex_conn ''POST'' ''//a//b?x=1//2'' [] []))\<lparr>req_url := Some ''/a/b?x=1//2''\<rparr>\<rparr>
      = ex_conn ''POST'' ''/a/b?x=1//2'' [] []"
    by (simp add: ex_conn_def)
  from url_cleanup [OF p1 inc, of "''dev1:id''" None 0] g
  have a: "\<exists>c'. serveProjectAsNowV2 ?env ''dev1:id'' None 0
           (ex_conn ''GET'' ''//a//b?x=1//2'' [] []) = Inr c' \<and>
         res_statusCode (res c') = 301 \<and>
         getHeader ''location'' (res c') = Some ''/a/b?x=1//2''"
    by (auto simp: col)
  from url_cleanup [OF p2 inc, of "''dev1:id''" None 0] ng
  have b: "serveProjectAsNowV2 ?env ''dev1:id'' None 0
       (ex_conn ''POST'' ''//a//b?x=1//2'' [] []) =
     serve_routed ?env ''dev1:id'' None 0 (ex_conn ''POST'' ''/a/b?x=1//2'' [] [])"
    by (simp add: col rew)
  from p1 inc col g ng a b show ?thesis by blast
qed

text \<open>
  The end of the function, the recursion and the function as a whole: which calls of
  \<open>triggerBuild\<close> are made, and that a response which the dispatcher ends or hands
  to the proxy carries the identifier of the request.
\<close>

lemma serve_asset_rebuild:
  assumes "callLevel = 0"
    and "findAsset (m_match m) (m_requestPath m) = None \<or> shouldRebuild (req c)"
  shows "serve_asset env nowRequestId callLevel m c =
     (case awaitTriggerBuild env (m_match m) (m_buildRequestPath m) of
        Inl err \<Rightarrow>
          Inl (err, c\<lparr>triggered := triggered c @ [(src (m_match m), m_buildRequestPath m)]\<rparr>)
      | Inr match' \<Rightarrow>
          serve_found env nowRequestId m (findAsset match' (m_requestPath m))
            (c\<lparr>triggered := triggered c @ [(src (m_match m), m_buildRequestPath m)],
               buildMatches := replace_match match' (buildMatches c)\<rparr>))"
  using assms by (auto simp: serve_asset_def Let_def split: sum.splits)

lemma serve_asset_no_rebuild:
  assumes "callLevel \<noteq> 0 \<or>
           (findAsset (m_match m) (m_requestPath m) \<noteq> None \<and> \<not> shouldRebuild (req c))"
  shows "serve_asset env nowRequestId callLevel m c =
           serve_found env nowRequestId m (findAsset (m_match m) (m_requestPath m)) c"
  using assms by (auto simp: serve_asset_def Let_def)

lemma serve_asset_triggered:
  "triggered (conn_of (serve_asset env nowRequestId callLevel m c)) =
     (if callLevel = 0 \<and>
         (findAsset (m_match m) (m_requestPath m) = None \<or> shouldRebuild (req c))
      then triggered c @ [(src (m_match m), m_buildRequestPath m)]
      else triggered c)"
proof (cases "callLevel = 0 \<and>
         (findAsset (m_match m) (m_requestPath m) = None \<or> shouldRebuild (req c))")
  case True
  then show ?thesis
    by (simp add: serve_asset_rebuild conn_of_simps serve_found_triggered split: sum.splits)
next
  case False
  then have "serve_asset env nowRequestId callLevel m c =
           serve_found env nowRequestId m (findAsset (m_match m) (m_requestPath m)) c"
    by (intro serve_asset_no_rebuild) auto
  with False show ?thesis by (simp add: serve_found_triggered)
qed

lemma serve_asset_proxied:
  "proxied (conn_of (serve_asset env nowRequestId callLevel m c)) = proxied c"
proof -
  have "proxied (conn_of (serve_found env nowRequestId m fa c0)) = proxied c"
    if "proxied c0 = proxied c" for fa c0
    using that by (simp add: serve_found_proxied)
  then show ?thesis
    by (auto simp: serve_asset_def Let_def conn_of_simps split: sum.splits)
qed

lemma serve_asset_id:
  assumes "serve_asset env nowRequestId callLevel m c = Inr c'"
  shows "getHeader ''x-now-id'' (res c') = Some nowRequestId \<or> function_respells_id (res c')"
  using assms
  by (auto simp: serve_asset_def Let_def dest: serve_found_id split: sum.splits if_splits)


lemma normalize_url_triggered:
  "normalize_url env nowRequestId c = Inl c' \<Longrightarrow> triggered c' = triggered c"
  "normalize_url env nowRequestId c = Inr c' \<Longrightarrow> triggered c' = triggered c"
  by (auto simp: normalize_url_def split: option.splits if_splits)

lemma normalize_url_proxied:
  "normalize_url env nowRequestId c = Inl c' \<Longrightarrow> proxied c' = proxied c"
  "normalize_url env nowRequestId c = Inr c' \<Longrightarrow> proxied c' = proxied c"
  by (auto simp: normalize_url_def split: option.splits if_splits)

lemma normalize_url_id:
  "normalize_url env nowRequestId c = Inl c' \<Longrightarrow> getHeader ''x-now-id'' (res c') = Some nowRequestId"
  by (auto simp: normalize_url_def getHeader_sendRedirect_id split: option.splits if_splits)

lemma serve_routed_inner:
  assumes "callLevel \<noteq> 0"
  shows "serve_routed env nowRequestId rts callLevel c =
     (case route_request env nowRequestId rts c of
        Responded r \<Rightarrow> r
      | Matched m c1 \<Rightarrow> serve_asset env nowRequestId callLevel m c1)"
  using assms
  by (simp add: serve_routed.simps [of env nowRequestId rts callLevel c]
      split: routed.splits option.splits)

lemma serve_routed_plain:
  assumes "route_request env nowRequestId rts c = Matched m c1"
    and "m_subroute m = None \<or> callLevel \<noteq> 0"
  shows "serve_routed env nowRequestId rts callLevel c = serve_asset env nowRequestId callLevel m c1"
  using assms
  by (auto simp: serve_routed.simps [of env nowRequestId rts callLevel c] split: option.splits)

lemma serve_routed_inner_triggered:
  assumes "callLevel \<noteq> 0"
  shows "triggered (conn_of (serve_routed env nowRequestId rts callLevel c)) = triggered c"
proof (cases "route_request env nowRequestId rts c")
  case (Responded r)
  with assms route_request_Responded(1) [OF Responded] show ?thesis
    by (simp add: serve_routed_inner)
next
  case (Matched m c1)
  with assms route_request_Matched(1) [OF Matched] show ?thesis
    by (simp add: serve_routed_inner serve_asset_triggered)
qed

lemma carries_id_same:
  assumes "proxied c' = before"
    and "getHeader ''x-now-id'' (res c') = Some nowRequestId \<or> function_respells_id (res c')"
  shows "carries_id env nowRequestId before c'"
  using assms by (simp add: carries_id_def)

lemma carries_id_proxy:
  assumes "proxied c' = before @ [(rs, dest)]"
    and "getHeader ''x-now-id'' rs = Some nowRequestId"
    and "res c' = proxyPass env (req c') rs dest"
  shows "carries_id env nowRequestId before c'"
  using assms by (simp add: carries_id_def)

lemma route_request_carries_id:
  assumes "route_request env nowRequestId rts c = Responded (Inr c')"
  shows "carries_id env nowRequestId (proxied c) c'"
  using route_request_Responded(2) [OF assms refl]
  by (auto intro: carries_id_same carries_id_proxy)

lemma serve_asset_carries_id:
  assumes "route_request env nowRequestId rts c = Matched m c1"
    and "serve_asset env nowRequestId callLevel m c1 = Inr c'"
  shows "carries_id env nowRequestId (proxied c) c'"
proof (rule carries_id_same)
  from serve_asset_proxied [of env nowRequestId callLevel m c1] assms(2)
    route_request_Matched_proxied [OF assms(1)]
  show "proxied c' = proxied c" by (simp add: conn_of_simps)
  from assms(2)
  show "getHeader ''x-now-id'' (res c') = Some nowRequestId \<or> function_respells_id (res c')"
    by (rule serve_asset_id)
qed

lemma serve_routed_inner_id:
  assumes "callLevel \<noteq> 0" and "serve_routed env nowRequestId rts callLevel c = Inr c'"
  shows "carries_id env nowRequestId (proxied c) c'"
proof (cases "route_request env nowRequestId rts c")
  case (Responded r)
  with assms have "route_request env nowRequestId rts c = Responded (Inr c')"
    by (simp add: serve_routed_inner)
  then show ?thesis by (rule route_request_carries_id)
next
  case (Matched m c1)
  with assms have "serve_asset env nowRequestId callLevel m c1 = Inr c'"
    by (simp add: serve_routed_inner)
  with Matched show ?thesis by (rule serve_asset_carries_id)
qed

lemma serveProjectAsNowV2_inner_triggered:
  assumes "callLevel \<noteq> 0"
  shows "triggered (conn_of (serveProjectAsNowV2 env nowRequestId rts callLevel c)) = triggered c"
proof (cases "normalize_url env nowRequestId c")
  case (Inl c')
  then show ?thesis
    by (simp add: serveProjectAsNowV2_def conn_of_simps normalize_url_triggered)
next
  case (Inr c')
  with assms show ?thesis
    by (simp add: serveProjectAsNowV2_def serve_routed_inner_triggered normalize_url_triggered)
qed

lemma serveProjectAsNowV2_inner_id:
  assumes "callLevel \<noteq> 0" and "serveProjectAsNowV2 env nowRequestId rts callLevel c = Inr c'"
  shows "carries_id env nowRequestId (proxied c) c'"
proof (cases "normalize_url env nowRequestId c")
  case (Inl c1)
  with assms(2) have "c1 = c'" by (simp add: serveProjectAsNowV2_def)
  with Inl normalize_url_id [of env nowRequestId c c'] normalize_url_proxied(1) [of env nowRequestId c c']
  show ?thesis by (intro carries_id_same) simp_all
next
  case (Inr c1)
  with assms(2) have "serve_routed env nowRequestId rts callLevel c1 = Inr c'"
    by (simp add: serveProjectAsNowV2_def)
  with assms(1) have "carries_id env nowRequestId (proxied c1) c'"
    by (rule serve_routed_inner_id)
  with normalize_url_proxied(2) [OF Inr] show ?thesis by simp
qed

lemma serve_routed_id:
  assumes "serve_routed env nowRequestId rts callLevel c = Inr c'"
  shows "carries_id env nowRequestId (proxied c) c'"
proof (cases "callLevel = 0")
  case False
  from this assms show ?thesis by (rule serve_routed_inner_id)
next
  case True
  show ?thesis
  proof (cases "route_request env nowRequestId rts c")
    case (Responded r)
    with assms have "route_request env nowRequestId rts c = Responded (Inr c')"
      by (simp add: serve_routed.simps [of env nowRequestId rts callLevel c])
    then show ?thesis by (rule route_request_carries_id)
  next
    case (Matched m c1)
    show ?thesis
    proof (cases "m_subroute m")
      case None
      with assms Matched have "serve_asset env nowRequestId callLevel m c1 = Inr c'"
        by (simp add: serve_routed_plain)
      with Matched show ?thesis by (rule serve_asset_carries_id)
    next
      case (Some sub)
      obtain newUrl rts' where sub: "sub = (newUrl, rts')" by (cases sub)
      from serve_routed_descends [OF Matched] Some sub assms True
      have "serveProjectAsNowV2 env nowRequestId rts' 1
              (c1\<lparr>req := (req c1)\<lparr>req_url := Some newUrl\<rparr>\<rparr>) = Inr c'"
        by simp
      with serveProjectAsNowV2_inner_id [of 1 env nowRequestId rts'
          "c1\<lparr>req := (req c1)\<lparr>req_url := Some newUrl\<rparr>\<rparr>" c']
        route_request_Matched_proxied [OF Matched]
      show ?thesis by simp
    qed
  qed
qed

lemma serveProjectAsNowV2_id:
  assumes "serveProjectAsNowV2 env nowRequestId rts callLevel c = Inr c'"
  shows "carries_id env nowRequestId (proxied c) c'"
proof (cases "normalize_url env nowRequestId c")
  case (Inl c1)
  with assms have "c1 = c'" by (simp add: serveProjectAsNowV2_def)
  with Inl normalize_url_id [of env nowRequestId c c'] normalize_url_proxied(1) [of env nowRequestId c c']
  show ?thesis by (intro carries_id_same) simp_all
next
  case (Inr c1)
  with assms have "serve_routed env nowRequestId rts callLevel c1 = Inr c'"
    by (simp add: serveProjectAsNowV2_def)
  then have "carries_id env nowRequestId (proxied c1) c'" by (rule serve_routed_id)
  with normalize_url_proxied(2) [OF Inr] show ?thesis by simp
qed
subsection \<open>Rebuilds and status codes\<close>

lemmas dispatch_eval =
  serveProjectAsNowV2_def normalize_url_def cleanUrl_def url_or_slash_def serve_routed.simps
  route_request_def subroute_of_def serve_asset_def serve_found_def invokeLambda_def
  findBuildMatch_def shouldServe_def findMatchingRoute_def hasFilesystem_def servesFilesystem_def
  findAsset_def read_buildOutput_def Object_prototype_def obj_get_def strip_leading_slash_def strip_trailing_slash_def shouldRebuild_def
  setHeaders_accepted ex_dev_env_def ex_router_def ex_url_parse_def ex_conn_def conn_of_def truthy_def replace_match_def
  Let_def

text \<open>
  Claim C4, as amended. For a request that resolves to a build match, the dispatcher
  calls \<open>triggerBuild\<close> for that match and resolves the asset again before it
  responds exactly when three things hold: it runs at \<open>callLevel\<close> 0, the routes of
  the build result do not take the request over, and the request has the header
  \<open>pragma: no-cache\<close> or \<open>cache-control: no-cache\<close> or no asset is found for the
  request path. A failed build is thrown on. In the pass over the routes of a build
  result (\<open>callLevel\<close> 1) no build is triggered.
\<close>

theorem rebuild_trigger:
  assumes "route_request env nowRequestId rts c = Matched m c1"
  shows "(callLevel = 0 \<and> m_subroute m = None \<and>
          (findAsset (m_match m) (m_requestPath m) = None \<or> shouldRebuild (req c)) \<longrightarrow>
            serve_routed env nowRequestId rts callLevel c =
              (case awaitTriggerBuild env (m_match m) (m_buildRequestPath m) of
                 Inl err \<Rightarrow>
                   Inl (err, c1\<lparr>triggered := triggered c @ [(src (m_match m), m_buildRequestPath m)]\<rparr>)
               | Inr match' \<Rightarrow>
                   serve_found env nowRequestId m (findAsset match' (m_requestPath m))
                     (c1\<lparr>triggered := triggered c @ [(src (m_match m), m_buildRequestPath m)],
                         buildMatches := replace_match match' (buildMatches c1)\<rparr>)) \<and>
            triggered (conn_of (serve_routed env nowRequestId rts callLevel c)) =
              triggered c @ [(src (m_match m), m_buildRequestPath m)]) \<and>
         (callLevel = 0 \<and> m_subroute m = None \<and>
          findAsset (m_match m) (m_requestPath m) \<noteq> None \<and> \<not> shouldRebuild (req c) \<longrightarrow>
            triggered (conn_of (serve_routed env nowRequestId rts callLevel c)) = triggered c) \<and>
         (callLevel \<noteq> 0 \<or> m_subroute m \<noteq> None \<longrightarrow>
            triggered (conn_of (serve_routed env nowRequestId rts callLevel c)) = triggered c)"
proof -
  note same = route_request_Matched(1,2) [OF assms]
  have plain: "serve_routed env nowRequestId rts callLevel c =
                 serve_asset env nowRequestId callLevel m c1"
    if "m_subroute m = None \<or> callLevel \<noteq> 0"
    using assms that by (rule serve_routed_plain)
  have a: "serve_routed env nowRequestId rts callLevel c =
              (case awaitTriggerBuild env (m_match m) (m_buildRequestPath m) of
                 Inl err \<Rightarrow>
                   Inl (err, c1\<lparr>triggered := triggered c @ [(src (m_match m), m_buildRequestPath m)]\<rparr>)
               | Inr match' \<Rightarrow>
                   serve_found env nowRequestId m (findAsset match' (m_requestPath m))
                     (c1\<lparr>triggered := triggered c @ [(src (m_match m), m_buildRequestPath m)],
                         buildMatches := replace_match match' (buildMatches c1)\<rparr>))"
    if "callLevel = 0" "m_subroute m = None"
       "findAsset (m_match m) (m_requestPath m) = None \<or> shouldRebuild (req c)"
    using that same plain
    by (simp add: serve_asset_rebuild split: sum.splits)
  have a': "triggered (conn_of (serve_routed env nowRequestId rts callLevel c)) =
              triggered c @ [(src (m_match m), m_buildRequestPath m)]"
    if "callLevel = 0" "m_subroute m = None"
       "findAsset (m_match m) (m_requestPath m) = None \<or> shouldRebuild (req c)"
    using that same plain
    by (simp add: serve_asset_triggered)
  have b: "triggered (conn_of (serve_routed env nowRequestId rts callLevel c)) = triggered c"
    if "callLevel = 0" "m_subroute m = None"
       "findAsset (m_match m) (m_requestPath m) \<noteq> None" "\<not> shouldRebuild (req c)"
    using that same plain by (simp add: serve_asset_triggered)
  have c: "triggered (conn_of (serve_routed env nowRequestId rts callLevel c)) = triggered c"
    if "callLevel \<noteq> 0 \<or> m_subroute m \<noteq> None"
  proof (cases "callLevel = 0")
    case False
    then show ?thesis by (rule serve_routed_inner_triggered)
  next
    case True
    with that obtain newUrl rts' where sub: "m_subroute m = Some (newUrl, rts')"
      by (cases "m_subroute m") auto
    from serve_routed_descends [OF assms sub] True
    have "serve_routed env nowRequestId rts callLevel c =
            serveProjectAsNowV2 env nowRequestId rts' 1
              (c1\<lparr>req := (req c1)\<lparr>req_url := Some newUrl\<rparr>\<rparr>)"
      by simp
    with serveProjectAsNowV2_inner_triggered [of 1 env nowRequestId rts'
        "c1\<lparr>req := (req c1)\<lparr>req_url := Some newUrl\<rparr>\<rparr>"] same
    show ?thesis by simp
  qed
  show ?thesis
  proof (intro conjI impI)
    assume h: "callLevel = 0 \<and> m_subroute m = None \<and>
          (findAsset (m_match m) (m_requestPath m) = None \<or> shouldRebuild (req c))"
    from h show "serve_routed env nowRequestId rts callLevel c =
              (case awaitTriggerBuild env (m_match m) (m_buildRequestPath m) of
                 Inl err \<Rightarrow>
                   Inl (err, c1\<lparr>triggered := triggered c @ [(src (m_match m), m_buildRequestPath m)]\<rparr>)
               | Inr match' \<Rightarrow>
                   serve_found env nowRequestId m (findAsset match' (m_requestPath m))
                     (c1\<lparr>triggered := triggered c @ [(src (m_match m), m_buildRequestPath m)],
                         buildMatches := replace_match match' (buildMatches c1)\<rparr>))"
      by (intro a) simp_all
    from h show "triggered (conn_of (serve_routed env nowRequestId rts callLevel c)) =
              triggered c @ [(src (m_match m), m_buildRequestPath m)]"
      by (intro a') simp_all
  next
    assume "callLevel = 0 \<and> m_subroute m = None \<and>
          findAsset (m_match m) (m_requestPath m) \<noteq> None \<and> \<not> shouldRebuild (req c)"
    then show "triggered (conn_of (serve_routed env nowRequestId rts callLevel c)) = triggered c"
      by (intro b) simp_all
  next
    assume "callLevel \<noteq> 0 \<or> m_subroute m \<noteq> None"
    then show "triggered (conn_of (serve_routed env nowRequestId rts callLevel c)) = triggered c"
      by (rule c)
  qed
qed

text \<open>
  \<open>GET /api/x\<close> with \<open>cache-control: no-cache\<close> resolves to the match of
  \<open>api/x.js\<close>, whose build result has no routes, and triggers its build; with
  \<open>cache-control: max-age=0\<close> and the asset present it triggers none.
\<close>

theorem rebuild_trigger_witness:
  "findBuildMatch (ex_dev_env None (\<lambda>m p. Inr m)) [ex_lambda_match] ''api/x'' False = Some ex_lambda_match \<and>
   shouldRebuild (req (ex_conn ''GET'' ''/api/x'' [(''cache-control'', ''no-cache'')] [ex_lambda_match])) \<and>
   triggered (conn_of (serve_routed (ex_dev_env None (\<lambda>m p. Inr m)) ''dev1:id'' None 0
      (ex_conn ''GET'' ''/api/x'' [(''cache-control'', ''no-cache'')] [ex_lambda_match])))
     = [(''api/x.js'', None)] \<and>
   \<not> shouldRebuild (req (ex_conn ''GET'' ''/api/x'' [(''cache-control'', ''max-age=0'')] [ex_lambda_match])) \<and>
   triggered (conn_of (serve_routed (ex_dev_env None (\<lambda>m p. Inr m)) ''dev1:id'' None 0
      (ex_conn ''GET'' ''/api/x'' [(''cache-control'', ''max-age=0'')] [ex_lambda_match]))) = []"
proof -
  let ?env = "ex_dev_env None (\<lambda>m p. Inr m) :: unit dev_env"
  let ?c = "ex_conn ''GET'' ''/api/x'' [(''cache-control'', ''no-cache'')] [ex_lambda_match]"
  let ?d = "ex_conn ''GET'' ''/api/x'' [(''cache-control'', ''max-age=0'')] [ex_lambda_match]"
  have fm: "findBuildMatch ?env [ex_lambda_match] ''api/x'' False = Some ex_lambda_match"
    by (simp add: dispatch_eval ex_lambda_match_def)
  have rb: "shouldRebuild (req ?c)" and nrb: "\<not> shouldRebuild (req ?d)"
    by (simp_all add: dispatch_eval)
  obtain m c1 where rr: "route_request ?env ''dev1:id'' None ?c = Matched m c1"
    and m: "m_subroute m = None" "m_match m = ex_lambda_match" "m_buildRequestPath m = None"
    by (simp add: dispatch_eval ex_lambda_match_def)
  obtain n d1 where rr': "route_request ?env ''dev1:id'' None ?d = Matched n d1"
    and n: "m_subroute n = None" "findAsset (m_match n) (m_requestPath n) \<noteq> None"
    by (simp add: dispatch_eval ex_lambda_match_def)
  from rebuild_trigger [OF rr, of 0] m(1) rb
  have "triggered (conn_of (serve_routed ?env ''dev1:id'' None 0 ?c)) =
          triggered ?c @ [(src (m_match m), m_buildRequestPath m)]"
    by blast
  then have a: "triggered (conn_of (serve_routed ?env ''dev1:id'' None 0 ?c)) = [(''api/x.js'', None)]"
    by (simp add: m ex_conn_def ex_lambda_match_def)
  from rebuild_trigger [OF rr', of 0] n nrb
  have "triggered (conn_of (serve_routed ?env ''dev1:id'' None 0 ?d)) = triggered ?d"
    by blast
  then have b: "triggered (conn_of (serve_routed ?env ''dev1:id'' None 0 ?d)) = []"
    by (simp add: ex_conn_def)
  from fm rb nrb a b show ?thesis by blast
qed

text \<open>
  Claim C4 as stated fails: \<open>GET /api/x\<close> with \<open>cache-control: no-cache\<close>
  resolves to the match of \<open>package.json\<close>, whose build result has routes that match.
  The dispatcher calls itself with those routes and \<open>callLevel\<close> 1, where it
  triggers no build, and answers with the asset that was there.
\<close>

theorem rebuild_trigger_counterexample:
  "shouldRebuild (req (ex_conn ''GET'' ''/api/x'' [(''cache-control'', ''no-cache'')] [ex_routes_match])) \<and>
   findBuildMatch (ex_dev_env None (\<lambda>m p. Inr m)) [ex_routes_match] ''api/x'' False = Some ex_routes_match \<and>
   triggered (conn_of (serveProjectAsNowV2 (ex_dev_env None (\<lambda>m p. Inr m)) ''dev1:id'' None 0
      (ex_conn ''GET'' ''/api/x'' [(''cache-control'', ''no-cache'')] [ex_routes_match]))) = [] \<and>
   res_body (res (conn_of (serveProjectAsNowV2 (ex_dev_env None (\<lambda>m p. Inr m)) ''dev1:id'' None 0
      (ex_conn ''GET'' ''/api/x'' [(''cache-control'', ''no-cache'')] [ex_routes_match])))) = Some (Raw ''old'')"
  by (simp add: dispatch_eval ex_routes_match_def res_body_end_response)



subsection \<open>The request identifier on responses\<close>

text \<open>
  Claim C8, as amended. When the dispatcher returns without an error escaping from it,
  it has either answered the request itself (through \<open>serve-handler\<close> for a file)
  or handed the response to the proxy. A response of the first kind has the header
  \<open>x-now-id\<close>, and its value is the identifier generated for the request unless the
  headers of a function's result have the key \<open>x-now-id\<close> and after it a key that
  is another spelling of that name. A response that is handed to the proxy has the
  header with the identifier when it is handed over, and what is sent is what the
  proxy makes of it. The 404 of a server that is stopping has
  the identifier too. The identifier \<open>dev1:{podId}-{epochMs}-{12-hex}\<close> matches the
  pattern \<open>dev1:[a-z0-9]{5}-\d+-[0-9a-f]{12}\<close> when the time is not negative, the
  random bytes are six and \<open>podId\<close> is five characters of \<open>[a-z0-9]\<close>, which it is
  when \<open>Math.random().toString(32)\<close> has at least five digits after the point.
\<close>

theorem request_id_header:
  "(serveProjectAsNowV2 env (generateRequestId podId now randomBytes6) rts 0 c = Inr c' \<longrightarrow>
      devServerHandler env podId now randomBytes6 False (Inr rts) c = c' \<and>
      (proxied c' = proxied c \<longrightarrow>
         getHeader ''x-now-id'' (res c') = Some (generateRequestId podId now randomBytes6) \<or>
         function_respells_id (res c')) \<and>
      (proxied c' \<noteq> proxied c \<longrightarrow>
         (\<exists>rs dest. proxied c' = proxied c @ [(rs, dest)] \<and>
            getHeader ''x-now-id'' rs = Some (generateRequestId podId now randomBytes6) \<and>
            res c' = proxyPass env (req c') rs dest))) \<and>
   getHeader ''x-now-id'' (res (devServerHandler env podId now randomBytes6 True nowConfig c)) =
     Some (generateRequestId podId now randomBytes6) \<and>
   (0 \<le> now \<and> length randomBytes6 = 6 \<and> length podId = 5 \<and> list_all is_lower_alnum podId \<longrightarrow>
      request_id_pattern (generateRequestId podId now randomBytes6)) \<and>
   (random32 = ''0.'' @ ds \<and> 5 \<le> length ds \<and> list_all is_base32 ds \<longrightarrow>
      length (podId_of random32) = 5 \<and> list_all is_lower_alnum (podId_of random32))"
proof (intro conjI impI)
  assume ok: "serveProjectAsNowV2 env (generateRequestId podId now randomBytes6) rts 0 c = Inr c'"
  then show "devServerHandler env podId now randomBytes6 False (Inr rts) c = c'"
    by (simp add: devServerHandler_def)
  from ok have carried: "carries_id env (generateRequestId podId now randomBytes6) (proxied c) c'"
    by (rule serveProjectAsNowV2_id)
  {
    assume "proxied c' = proxied c"
    with carried
    show "getHeader ''x-now-id'' (res c') = Some (generateRequestId podId now randomBytes6) \<or>
       function_respells_id (res c')"
      by (simp add: carries_id_def)
  next
    assume "proxied c' \<noteq> proxied c"
    with carried
    show "\<exists>rs dest. proxied c' = proxied c @ [(rs, dest)] \<and>
            getHeader ''x-now-id'' rs = Some (generateRequestId podId now randomBytes6) \<and>
            res c' = proxyPass env (req c') rs dest"
      by (auto simp: carries_id_def split: prod.splits)
  }
next
  show "getHeader ''x-now-id'' (res (devServerHandler env podId now randomBytes6 True nowConfig c)) =
     Some (generateRequestId podId now randomBytes6)"
    by (simp add: devServerHandler_def send404_def getHeader_sendError_id)
next
  assume "0 \<le> now \<and> length randomBytes6 = 6 \<and> length podId = 5 \<and> list_all is_lower_alnum podId"
  then show "request_id_pattern (generateRequestId podId now randomBytes6)"
    by (intro generateRequestId_pattern) simp_all
next
  assume h: "random32 = ''0.'' @ ds \<and> 5 \<le> length ds \<and> list_all is_base32 ds"
  then have "length (podId_of random32) = 5 \<and> list_all is_lower_alnum (podId_of random32)"
    by (intro podId_of_random [of random32 ds]) simp_all
  then show "length (podId_of random32) = 5" and "list_all is_lower_alnum (podId_of random32)"
    by simp_all
qed

text \<open>
  The example of the source, \<open>dev1:q4wlg-1562364135397-7a873ac99c8e\<close>, as the
  identifier of a \<open>POST /api/x\<close> that is answered by the function, and of a
  \<open>GET /api\<close> that is handed to the proxy for \<open>https://example.now.sh/api\<close>.
\<close>

lemmas id_eval =
  generateRequestId_def number_toString_def toString_hex_def hex_byte_def digit_char_def
  show_nat.simps podId_of_def

theorem request_id_header_witness:
  "podId_of ''0.q4wlg'' = ''q4wlg'' \<and>
   generateRequestId ''q4wlg'' 1562364135397 [122, 135, 58, 201, 156, 142] =
     ''dev1:q4wlg-1562364135397-7a873ac99c8e'' \<and>
   request_id_pattern ''dev1:q4wlg-1562364135397-7a873ac99c8e'' \<and>
   getHeader ''x-now-id'' (res (devServerHandler (ex_dev_env None (\<lambda>m p. Inr m)) ''q4wlg'' 1562364135397
       [122, 135, 58, 201, 156, 142] False (Inr None) (ex_conn ''POST'' ''/api/x'' [] [ex_lambda_match])))
     = Some ''dev1:q4wlg-1562364135397-7a873ac99c8e'' \<and>
   res_body (res (devServerHandler (ex_dev_env None (\<lambda>m p. Inr m)) ''q4wlg'' 1562364135397
       [122, 135, 58, 201, 156, 142] False (Inr None) (ex_conn ''POST'' ''/api/x'' [] [ex_lambda_match])))
     = Some (Invoked ex_result) \<and>
   map snd (proxied (devServerHandler ex_proxy_env ''q4wlg'' 1562364135397
       [122, 135, 58, 201, 156, 142] False (Inr None) (ex_conn ''GET'' ''/api'' [] [])))
     = [''https://example.now.sh/api''] \<and>
   getHeader ''x-now-id'' (fst (last (proxied (devServerHandler ex_proxy_env ''q4wlg'' 1562364135397
       [122, 135, 58, 201, 156, 142] False (Inr None) (ex_conn ''GET'' ''/api'' [] [])))))
     = Some ''dev1:q4wlg-1562364135397-7a873ac99c8e''"
proof -
  let ?env = "ex_dev_env None (\<lambda>m p. Inr m) :: unit dev_env"
  let ?c = "ex_conn ''POST'' ''/api/x'' [] [ex_lambda_match]"
  let ?d = "ex_conn ''GET'' ''/api'' [] []"
  let ?rnd = "[122, 135, 58, 201, 156, 142] :: nat list"
  have pod: "podId_of ''0.q4wlg'' = ''q4wlg''" by (simp add: podId_of_def)
  have gid: "generateRequestId ''q4wlg'' 1562364135397 ?rnd = ''dev1:q4wlg-1562364135397-7a873ac99c8e''"
    by (simp add: id_eval)
  have hyp: "(0::int) \<le> 1562364135397 \<and> length ?rnd = 6 \<and> length ''q4wlg'' = 5 \<and>
             list_all is_lower_alnum ''q4wlg''"
    by (simp add: is_lower_alnum_def)
  obtain c' where sr: "serveProjectAsNowV2 ?env (generateRequestId ''q4wlg'' 1562364135397 ?rnd) None 0 ?c = Inr c'"
    and body: "res_body (res c') = Some (Invoked ex_result)" and same: "proxied c' = proxied ?c"
    by (simp add: dispatch_eval ex_lambda_match_def res_body_end_response)
  have nf: "\<not> function_respells_id (res c')"
    by (simp add: function_respells_id_def respells_id_def body ex_result_def)
  note T = request_id_header [of ?env "''q4wlg''" 1562364135397 ?rnd None ?c c']
  from T sr have dh: "devServerHandler ?env ''q4wlg'' 1562364135397 ?rnd False (Inr None) ?c = c'"
    by blast
  from T sr same nf have "getHeader ''x-now-id'' (res c') = Some (generateRequestId ''q4wlg'' 1562364135397 ?rnd)"
    by blast
  moreover from T hyp have "request_id_pattern (generateRequestId ''q4wlg'' 1562364135397 ?rnd)"
    by blast
  ultimately have a: "request_id_pattern ''dev1:q4wlg-1562364135397-7a873ac99c8e'' \<and>
      getHeader ''x-now-id'' (res (devServerHandler ?env ''q4wlg'' 1562364135397 ?rnd False (Inr None) ?c))
        = Some ''dev1:q4wlg-1562364135397-7a873ac99c8e'' \<and>
      res_body (res (devServerHandler ?env ''q4wlg'' 1562364135397 ?rnd False (Inr None) ?c))
        = Some (Invoked ex_result)"
    using gid dh body by simp
  obtain d' where sp: "serveProjectAsNowV2 ex_proxy_env (generateRequestId ''q4wlg'' 1562364135397 ?rnd) None 0 ?d = Inr d'"
    and dests: "map snd (proxied d') = [''https://example.now.sh/api'']"
    and differ: "proxied d' \<noteq> proxied ?d"
    by (simp add: ex_proxy_env_def dispatch_eval)
  note P = request_id_header [of ex_proxy_env "''q4wlg''" 1562364135397 ?rnd None ?d d']
  from P sp have ph: "devServerHandler ex_proxy_env ''q4wlg'' 1562364135397 ?rnd False (Inr None) ?d = d'"
    by blast
  from P sp differ obtain rs dest where "proxied d' = proxied ?d @ [(rs, dest)]"
    and "getHeader ''x-now-id'' rs = Some (generateRequestId ''q4wlg'' 1562364135397 ?rnd)"
    by blast
  then have "getHeader ''x-now-id'' (fst (last (proxied d'))) =
      Some (generateRequestId ''q4wlg'' 1562364135397 ?rnd)"
    by simp
  with ph dests gid have b: "map snd (proxied (devServerHandler ex_proxy_env ''q4wlg'' 1562364135397
       ?rnd False (Inr None) ?d)) = [''https://example.now.sh/api''] \<and>
     getHeader ''x-now-id'' (fst (last (proxied (devServerHandler ex_proxy_env ''q4wlg'' 1562364135397
       ?rnd False (Inr None) ?d)))) = Some ''dev1:q4wlg-1562364135397-7a873ac99c8e''"
    by simp
  from pod gid a b show ?thesis by simp
qed

text \<open>
  Claim C8 as stated fails in four ways. When the build that a request triggers fails,
  the error escapes to \<open>devServerHandler\<close>, which answers 500 with the message and
  never sets the headers of the server: the response has no \<open>x-now-id\<close>. When
  \<open>Math.random()\<close> is 0.5, \<open>toString(32)\<close> is \<open>0.g\<close>, that is the \<open>podId\<close>,
  and the identifier does not match the pattern. When a function returns the headers
  \<open>x-now-id: a\<close> and \<open>X-Now-Id: b\<close>, the response has \<open>x-now-id: b\<close>. When a
  request is proxied to an upstream that answers with an \<open>x-now-id\<close> of its own and
  the proxy relays the headers of the upstream, the response has the identifier of
  the upstream.
\<close>

theorem request_id_header_counterexample:
  "getHeader ''x-now-id'' (res (devServerHandler (ex_dev_env None ex_failing_build) ''q4wlg''
       1562364135397 [122, 135, 58, 201, 156, 142] False (Inr None)
       (ex_conn ''GET'' ''/nope'' [] [ex_lazy_match]))) = None \<and>
   res_statusCode (res (devServerHandler (ex_dev_env None ex_failing_build) ''q4wlg''
       1562364135397 [122, 135, 58, 201, 156, 142] False (Inr None)
       (ex_conn ''GET'' ''/nope'' [] [ex_lazy_match]))) = 500 \<and>
   res_body (res (devServerHandler (ex_dev_env None ex_failing_build) ''q4wlg''
       1562364135397 [122, 135, 58, 201, 156, 142] False (Inr None)
       (ex_conn ''GET'' ''/nope'' [] [ex_lazy_match]))) = Some (Raw ''Build failed'') \<and>
   podId_of ''0.g'' = ''0.g'' \<and>
   \<not> matches_request_id (generateRequestId (podId_of ''0.g'') 1562364135397
        [122, 135, 58, 201, 156, 142]) \<and>
   getHeader ''x-now-id'' (res (devServerHandler (ex_dev_env None (\<lambda>m p. Inr m)) ''q4wlg''
       1562364135397 [122, 135, 58, 201, 156, 142] False (Inr None)
       (ex_conn ''GET'' ''/api/y'' [] [ex_respelling_match]))) = Some ''b'' \<and>
   getHeader ''x-now-id'' (res (devServerHandler ex_proxy_env ''q4wlg''
       1562364135397 [122, 135, 58, 201, 156, 142] False (Inr None)
       (ex_conn ''GET'' ''/api'' [] []))) = Some ''upstream-id''"
proof -
  have a: "devServerHandler (ex_dev_env None ex_failing_build) ''q4wlg''
       1562364135397 [122, 135, 58, 201, 156, 142] False (Inr None)
       (ex_conn ''GET'' ''/nope'' [] [ex_lazy_match]) =
      \<lparr>req = \<lparr>req_method = Some ''GET'', req_url = Some ''/nope'', req_headers = []\<rparr>,
       res = \<lparr>res_statusCode = 500, res_headers = [], res_body = Some (Raw ''Build failed'')\<rparr>,
       buildMatches = [ex_lazy_match], triggered = [(''pages/nope.js'', Some ''nope'')],
       proxied = []\<rparr>"
    by (simp add: devServerHandler_def dispatch_eval ex_lazy_match_def ex_failing_build_def
        end_response_def)
  have b: "podId_of ''0.g'' = ''0.g''" by (simp add: podId_of_def)
  have c: "\<not> matches_request_id (generateRequestId (podId_of ''0.g'') 1562364135397
        [122, 135, 58, 201, 156, 142])"
    by (simp add: matches_request_id_def generateRequestId_def podId_of_def is_lower_alnum_def)
  have d: "getHeader ''x-now-id'' (res (devServerHandler (ex_dev_env None (\<lambda>m p. Inr m)) ''q4wlg''
       1562364135397 [122, 135, 58, 201, 156, 142] False (Inr None)
       (ex_conn ''GET'' ''/api/y'' [] [ex_respelling_match]))) = Some ''b''"
    by (simp add: devServerHandler_def dispatch_eval ex_respelling_match_def ex_respelling_result_def
        getHeader_end_response setResponseHeaders_def allHeaders_def obj_assign_def obj_set_def
        getHeader_setHeader toLowerCase_def)
  have e: "getHeader ''x-now-id'' (res (devServerHandler ex_proxy_env ''q4wlg''
       1562364135397 [122, 135, 58, 201, 156, 142] False (Inr None)
       (ex_conn ''GET'' ''/api'' [] []))) = Some ''upstream-id''"
    by (simp add: devServerHandler_def ex_proxy_env_def dispatch_eval proxyPass_def ex_proxy_web_def
        getHeader_end_response getHeader_setHeader toLowerCase_lower)
  from a have "getHeader ''x-now-id'' (res (devServerHandler (ex_dev_env None ex_failing_build) ''q4wlg''
       1562364135397 [122, 135, 58, 201, 156, 142] False (Inr None)
       (ex_conn ''GET'' ''/nope'' [] [ex_lazy_match]))) = None"
    by (simp add: getHeader_def obj_get_def)
  with a b c d e show ?thesis by simp
qed
subsection \<open>Request paths that name a member of \<open>Object.prototype\<close>\<close>

text \<open>
  Claim C10 says that \<open>findAsset\<close> falls back to the index entries whenever no asset
  is stored at the request path, and returns nothing when there is no such entry. The
  code reads \<open>match.buildOutput[requestPath]\<close> without asking whether the property
  is the object's own, as \<open>validateEnvConfig\<close> does with \<open>hasOwnProperty\<close>. For the
  request path \<open>constructor\<close> the build output of the example stores no asset and has
  no index entry of that directory, and yet \<open>findAsset\<close> returns the function
  \<open>Object\<close> as the asset; so the match serves the path, and \<open>GET /constructor\<close> is
  answered with the error 500 \<open>UNKNOWN_ASSET_TYPE\<close>.
\<close>

theorem findAsset_inherited_property:
  "buildOutput ex_match = Some [(''a.js'', FileFsRef ''/p/a.js''),
                                (''dir/index.html'', FileBlob ''hi'' None),
                                (''dir/index.js'', FileBlob ''js'' None)] \<and>
   obj_get [(''a.js'', FileFsRef ''/p/a.js''),
            (''dir/index.html'', FileBlob ''hi'' None),
            (''dir/index.js'', FileBlob ''js'' None)] ''constructor'' = None \<and>
   find (\<lambda>(name, a). isIndex name \<and> dirnameWithoutDot name = strip_trailing_slash ''constructor'')
     [(''a.js'', FileFsRef ''/p/a.js''),
      (''dir/index.html'', FileBlob ''hi'' None),
      (''dir/index.js'', FileBlob ''js'' None)] = None \<and>
   findAsset ex_match ''constructor'' = Some (PrototypeMember ''constructor'', ''constructor'') \<and>
   findBuildMatch (ex_dev_env None (\<lambda>m p. Inr m)) [ex_match] ''constructor'' False = Some ex_match \<and>
   res_statusCode (res (devServerHandler (ex_dev_env None (\<lambda>m p. Inr m)) ''q4wlg'' 1562364135397
       [122, 135, 58, 201, 156, 142] False (Inr None) (ex_conn ''GET'' ''/constructor'' [] [ex_match])))
     = 500 \<and>
   res_body (res (devServerHandler (ex_dev_env None (\<lambda>m p. Inr m)) ''q4wlg'' 1562364135397
       [122, 135, 58, 201, 156, 142] False (Inr None) (ex_conn ''GET'' ''/constructor'' [] [ex_match])))
     = Some (ErrorBody Plain 500 (Some ''UNKNOWN_ASSET_TYPE''))"
proof -
  let ?out = "[(''a.js'', FileFsRef ''/p/a.js''),
               (''dir/index.html'', FileBlob ''hi'' None),
               (''dir/index.js'', FileBlob ''js'' None)]"
  have out: "buildOutput ex_match = Some ?out" by (simp add: ex_match_def)
  have own: "obj_get ?out ''constructor'' = None" by (simp add: obj_get_def)
  have idx: "find (\<lambda>(name, a). isIndex name \<and> dirnameWithoutDot name = strip_trailing_slash ''constructor'')
               ?out = None"
    by (simp add: isIndex_def dirnameWithoutDot_def dirname_def extname_def basename_def
        last_component_def strip_trailing_slash_def suffix_def Let_def)
  have found: "findAsset ex_match ''constructor'' = Some (PrototypeMember ''constructor'', ''constructor'')"
    by (simp add: findAsset_def out read_buildOutput_def own Object_prototype_def
        strip_trailing_slash_def)
  have fm: "findBuildMatch (ex_dev_env None (\<lambda>m p. Inr m)) [ex_match] ''constructor'' False = Some ex_match"
    by (simp add: findBuildMatch_def shouldServe_def found) (simp add: ex_match_def)
  have served: "serveProjectAsNowV2 (ex_dev_env None (\<lambda>m p. Inr m))
        (generateRequestId ''q4wlg'' 1562364135397 [122, 135, 58, 201, 156, 142]) None 0
        (ex_conn ''GET'' ''/constructor'' [] [ex_match]) =
      Inr ((ex_conn ''GET'' ''/constructor'' [] [ex_match])
             \<lparr>res := sendError (req (ex_conn ''GET'' ''/constructor'' [] [ex_match]))
                (generateRequestId ''q4wlg'' 1562364135397 [122, 135, 58, 201, 156, 142])
                (Some ''UNKNOWN_ASSET_TYPE'') 500
                (res (ex_conn ''GET'' ''/constructor'' [] [ex_match]))\<rparr>)"
    by (simp add: dispatch_eval ex_match_def)
  have neg: "negotiate (req (ex_conn ''GET'' ''/constructor'' [] [ex_match])) = Plain"
    by (simp add: negotiate_def ex_conn_def obj_get_def)
  from served neg
  have "res_statusCode (res (devServerHandler (ex_dev_env None (\<lambda>m p. Inr m)) ''q4wlg'' 1562364135397
       [122, 135, 58, 201, 156, 142] False (Inr None) (ex_conn ''GET'' ''/constructor'' [] [ex_match])))
     = 500 \<and>
   res_body (res (devServerHandler (ex_dev_env None (\<lambda>m p. Inr m)) ''q4wlg'' 1562364135397
       [122, 135, 58, 201, 156, 142] False (Inr None) (ex_conn ''GET'' ''/constructor'' [] [ex_match])))
     = Some (ErrorBody Plain 500 (Some ''UNKNOWN_ASSET_TYPE''))"
    by (simp add: devServerHandler_def res_statusCode_sendError res_body_sendError)
  with out own idx found fm show ?thesis by simp
qed

end
